theory Spec2Isabelle
  imports Complex_Main "HOL-Library.Sublist"
begin

section \<open>Data model\<close>

text \<open>
  The dataclass \<^verbatim>\<open>Assignment\<close> of \<^verbatim>\<open>grade-generator.py\<close>, with the type of
  its two numbers as a parameter. Python's \<^verbatim>\<open>float\<close> is read in two ways. In
  exact arithmetic it is \<^typ>\<open>real\<close>: this reading carries the control flow of the
  session and the statements that are about the formulas. In double arithmetic it is the
  type \<open>pyfloat\<close> of the section on IEEE doubles, with rounding to nearest, signed
  zeros, infinities and NaN: this reading carries the statements about the values the
  program computes, compares and prints. The category stays a string, as in the source.
\<close>

record 'n assignment_rec =
  name :: string
  category :: string
  grade :: 'n
  weight :: 'n

type_synonym assignment = "real assignment_rec"

text \<open>The constructor call \<^verbatim>\<open>Assignment(name=..., category=..., grade=..., weight=...)\<close>.\<close>

definition Assignment :: "string \<Rightarrow> string \<Rightarrow> 'n \<Rightarrow> 'n \<Rightarrow> 'n assignment_rec" where
  "Assignment n c g w = \<lparr> name = n, category = c, grade = g, weight = w \<rparr>"

text \<open>
  The property \<^verbatim>\<open>weighted_grade\<close> in exact arithmetic; the divisor is the literal
  \<^verbatim>\<open>100.0\<close>.
\<close>

definition weighted_grade :: "assignment \<Rightarrow> real" where
  "weighted_grade a = (grade a / 100) * weight a"

section \<open>Aggregation\<close>

text \<open>
  The dictionary returned by \<^verbatim>\<open>calculate_totals\<close> has a fixed set of nine keys; it is a
  record with one field per key.
\<close>

record 'n totals_rec =
  total_formative :: 'n
  total_summative :: 'n
  total_fa_weight :: 'n
  total_sa_weight :: 'n
  final_grade :: 'n
  gpa :: 'n
  fa_threshold :: 'n
  sa_threshold :: 'n
  passes :: bool

type_synonym totals = "real totals_rec"

text \<open>
  \<^verbatim>\<open>sum(f(a) for a in assignments if a.category == c)\<close> adds the selected values from
  left to right, starting at 0. This is \<^verbatim>\<open>calculate_totals\<close> in exact arithmetic;
  \<open>calculate_totals_ieee\<close> below is the same code on doubles.
\<close>

definition calculate_totals :: "assignment list \<Rightarrow> totals" where
  "calculate_totals assignments =
     (let tf = sum_list (map weighted_grade (filter (\<lambda>a. category a = ''FA'') assignments));
          ts = sum_list (map weighted_grade (filter (\<lambda>a. category a = ''SA'') assignments));
          fw = sum_list (map weight (filter (\<lambda>a. category a = ''FA'') assignments));
          sw = sum_list (map weight (filter (\<lambda>a. category a = ''SA'') assignments));
          fg = tf + ts;
          g = (fg / 100) * 5;
          ft = fw * 0.5;
          st = sw * 0.5;
          p = ((if fw > 0 then tf \<ge> ft else True) \<and> (if sw > 0 then ts \<ge> st else True))
      in \<lparr> total_formative = tf, total_summative = ts,
           total_fa_weight = fw, total_sa_weight = sw,
           final_grade = fg, gpa = g,
           fa_threshold = ft, sa_threshold = st, passes = p \<rparr>)"

text \<open>
  Errors the program can raise, as values. Division is the only arithmetic operation of
  the source that can raise; \<^verbatim>\<open>py_div\<close> makes that explicit where the divisor is a
  variable.
\<close>

datatype error = EOFError | OSError | ZeroDivisionError

definition py_div :: "real \<Rightarrow> real \<Rightarrow> error + real" where
  "py_div a b = (if b = 0 then Inl ZeroDivisionError else Inr (a / b))"

definition format_percentage :: "real \<Rightarrow> real \<Rightarrow> error + real" where
  "format_percentage v total_weight =
     (if total_weight \<le> 0 then Inr 0
      else case py_div v total_weight of
             Inl e \<Rightarrow> Inl e
           | Inr q \<Rightarrow> Inr (q * 100))"

section \<open>Strings\<close>

text \<open>
  \<^verbatim>\<open>str.strip\<close>, \<^verbatim>\<open>str.upper\<close> and \<^verbatim>\<open>str.lower\<close> on ASCII text. The
  whitespace characters are those with \<^verbatim>\<open>str.isspace\<close> below code point 128.
\<close>

definition isspace :: "char \<Rightarrow> bool" where
  "isspace c = (c \<in> set [CHR 0x09, CHR 0x0A, CHR 0x0B, CHR 0x0C, CHR 0x0D,
                           CHR 0x1C, CHR 0x1D, CHR 0x1E, CHR 0x1F, CHR 0x20])"

definition strip :: "string \<Rightarrow> string" where
  "strip s = rev (dropWhile isspace (rev (dropWhile isspace s)))"

definition upper_char :: "char \<Rightarrow> char" where
  "upper_char c =
     (let n = (of_char c :: nat) in if 97 \<le> n \<and> n \<le> 122 then char_of (n - 32) else c)"

definition lower_char :: "char \<Rightarrow> char" where
  "lower_char c =
     (let n = (of_char c :: nat) in if 65 \<le> n \<and> n \<le> 90 then char_of (n + 32) else c)"

definition upper :: "string \<Rightarrow> string" where
  "upper s = map upper_char s"

definition lower :: "string \<Rightarrow> string" where
  "lower s = map lower_char s"

text \<open>
  The invariant of the data model (section 3 of the specification, and the comments on
  the fields of the dataclass), as a predicate on records.
\<close>

definition record_invariant :: "assignment \<Rightarrow> bool" where
  "record_invariant a =
     (strip (name a) \<noteq> [] \<and> (category a = ''FA'' \<or> category a = ''SA'') \<and>
      0 \<le> grade a \<and> grade a \<le> 100 \<and> 0 < weight a)"

subsection \<open>Number formatting\<close>

definition digit_char :: "nat \<Rightarrow> char" where
  "digit_char d = char_of (48 + d)"

text \<open>\<^verbatim>\<open>str\<close> of a natural number (the index in an f-string).\<close>

function str_nat :: "nat \<Rightarrow> string" where
  "str_nat n = (if n < 10 then [digit_char n] else str_nat (n div 10) @ [digit_char (n mod 10)])"
  by pat_completeness auto
termination
  by (relation "measure id") auto

declare str_nat.simps [simp del]

text \<open>
  The format specification \<^verbatim>\<open>.2f\<close>: the value is rounded to the nearest multiple of
  1/100, a tie going to the even one; the sign is that of the value itself, so a negative
  value that rounds to zero is printed as \<^verbatim>\<open>-0.00\<close>.
\<close>

definition round_half_even :: "real \<Rightarrow> int" where
  "round_half_even r =
     (let f = \<lfloor>r\<rfloor>; d = r - of_int f
      in if d < 1/2 then f else if d > 1/2 then f + 1 else if even f then f else f + 1)"

definition format_2f :: "real \<Rightarrow> string" where
  "format_2f x =
     (let n = nat (round_half_even (\<bar>x\<bar> * 100))
      in (if x < 0 then ''-'' else []) @ str_nat (n div 100) @ ''.'' @
         [digit_char (n mod 100 div 10), digit_char (n mod 10)])"

text \<open>
  \<^verbatim>\<open>float(raw)\<close> is a parameter of the functions that call it: a function from the
  stripped text to a number, \<open>None\<close> standing for \<^verbatim>\<open>ValueError\<close>. For concrete
  runs, \<open>py_float_decimal\<close> reads the plain decimal literals (an optional sign, digits,
  an optional fraction), a fragment of what \<^verbatim>\<open>float\<close> accepts.
\<close>

definition is_digit :: "char \<Rightarrow> bool" where
  "is_digit c = (48 \<le> (of_char c :: nat) \<and> (of_char c :: nat) \<le> 57)"

definition digits_value :: "string \<Rightarrow> nat" where
  "digits_value s = foldl (\<lambda>n c. 10 * n + ((of_char c :: nat) - 48)) 0 s"

definition py_float_decimal :: "string \<Rightarrow> real option" where
  "py_float_decimal s =
     (let (neg, body) =
            (case s of
               [] \<Rightarrow> (False, s)
             | c # cs \<Rightarrow> if c = CHR ''-'' then (True, cs)
                         else if c = CHR ''+'' then (False, cs) else (False, s));
          ip = takeWhile is_digit body;
          rest = dropWhile is_digit body;
          (fp, ok) =
            (case rest of
               [] \<Rightarrow> ([], True)
             | c # cs \<Rightarrow> if c = CHR ''.'' \<and> list_all is_digit cs then (cs, True)
                         else ([], False))
      in if ok \<and> (ip \<noteq> [] \<or> fp \<noteq> [])
         then Some ((if neg then - 1 else 1) * real (digits_value (ip @ fp)) / 10 ^ length fp)
         else None)"

section \<open>IEEE double arithmetic\<close>

text \<open>
  A Python \<^verbatim>\<open>float\<close> is an IEEE 754 binary64 number: a finite number, a negative
  zero, an infinity or NaN. \<open>Finite r\<close> carries the exact value of a finite double
  (\<open>Finite 0\<close> is the positive zero).
\<close>

datatype pyfloat = Finite real | NegZero | PosInf | NegInf | NaN

type_synonym assignment_ieee = "pyfloat assignment_rec"

type_synonym totals_ieee = "pyfloat totals_rec"

text \<open>
  Rounding to the nearest double, a tie going to the even significand: the result is a
  multiple of the unit in the last place of the binade of the argument, 53 bits below its
  leading bit and never below \<open>2 powi (- 1074)\<close>.
\<close>

definition ulp_exponent :: "real \<Rightarrow> int" where
  "ulp_exponent x = max \<lfloor>log 2 \<bar>x\<bar>\<rfloor> (- 1022) - 52"

definition round_double :: "real \<Rightarrow> real" where
  "round_double x =
     (if x = 0 then 0
      else of_int (round_half_even (x / 2 powi ulp_exponent x)) * 2 powi ulp_exponent x)"


text \<open>
  The double for an exact result that is not zero: an infinity on overflow, a zero with
  the sign of the result on underflow.
\<close>

definition fl_round :: "real \<Rightarrow> pyfloat" where
  "fl_round x =
     (let y = round_double x
      in if 2 ^ 1024 \<le> \<bar>y\<bar> then (if x < 0 then NegInf else PosInf)
         else if y = 0 then (if x < 0 then NegZero else Finite 0)
         else Finite y)"

fun fval :: "pyfloat \<Rightarrow> real" where
  "fval (Finite r) = r"
| "fval NegZero = 0"
| "fval PosInf = 0"
| "fval NegInf = 0"
| "fval NaN = 0"

fun sign_bit :: "pyfloat \<Rightarrow> bool" where
  "sign_bit (Finite r) = (r < 0)"
| "sign_bit NegZero = True"
| "sign_bit PosInf = False"
| "sign_bit NegInf = True"
| "sign_bit NaN = False"

definition is_zero :: "pyfloat \<Rightarrow> bool" where
  "is_zero a = (a = Finite 0 \<or> a = NegZero)"

definition is_inf :: "pyfloat \<Rightarrow> bool" where
  "is_inf a = (a = PosInf \<or> a = NegInf)"

definition signed_zero :: "bool \<Rightarrow> pyfloat" where
  "signed_zero s = (if s then NegZero else Finite 0)"

definition signed_inf :: "bool \<Rightarrow> pyfloat" where
  "signed_inf s = (if s then NegInf else PosInf)"

text \<open>\<^verbatim>\<open>a + b\<close>.\<close>

definition fadd :: "pyfloat \<Rightarrow> pyfloat \<Rightarrow> pyfloat" where
  "fadd a b =
     (if a = NaN \<or> b = NaN then NaN
      else if is_inf a then (if is_inf b \<and> a \<noteq> b then NaN else a)
      else if is_inf b then b
      else if a = NegZero \<and> b = NegZero then NegZero
      else if fval a + fval b = 0 then Finite 0
      else fl_round (fval a + fval b))"

text \<open>\<^verbatim>\<open>a * b\<close>.\<close>

definition fmul :: "pyfloat \<Rightarrow> pyfloat \<Rightarrow> pyfloat" where
  "fmul a b =
     (if a = NaN \<or> b = NaN then NaN
      else if is_inf a \<or> is_inf b
           then (if is_zero a \<or> is_zero b then NaN else signed_inf (sign_bit a \<noteq> sign_bit b))
      else if is_zero a \<or> is_zero b then signed_zero (sign_bit a \<noteq> sign_bit b)
      else fl_round (fval a * fval b))"

text \<open>
  The IEEE quotient. Python's \<^verbatim>\<open>a / b\<close> is this quotient when \<open>b\<close> is not a zero,
  and raises \<^verbatim>\<open>ZeroDivisionError\<close> otherwise.
\<close>

definition fquot :: "pyfloat \<Rightarrow> pyfloat \<Rightarrow> pyfloat" where
  "fquot a b =
     (if a = NaN \<or> b = NaN then NaN
      else if is_inf a then (if is_inf b then NaN else signed_inf (sign_bit a \<noteq> sign_bit b))
      else if is_inf b then signed_zero (sign_bit a \<noteq> sign_bit b)
      else if is_zero b then (if is_zero a then NaN else signed_inf (sign_bit a \<noteq> sign_bit b))
      else if is_zero a then signed_zero (sign_bit a \<noteq> sign_bit b)
      else fl_round (fval a / fval b))"

text \<open>
  The comparisons \<^verbatim>\<open>a <= b\<close>, \<^verbatim>\<open>a < b\<close> and \<^verbatim>\<open>a == b\<close>: false when an
  operand is NaN, and the two zeros are equal.
\<close>

fun frank :: "pyfloat \<Rightarrow> int" where
  "frank NegInf = - 1"
| "frank PosInf = 1"
| "frank (Finite r) = 0"
| "frank NegZero = 0"
| "frank NaN = 0"

definition fle :: "pyfloat \<Rightarrow> pyfloat \<Rightarrow> bool" where
  "fle a b = (a \<noteq> NaN \<and> b \<noteq> NaN \<and>
              (frank a < frank b \<or> (frank a = frank b \<and> fval a \<le> fval b)))"

definition flt :: "pyfloat \<Rightarrow> pyfloat \<Rightarrow> bool" where
  "flt a b = (a \<noteq> NaN \<and> b \<noteq> NaN \<and>
              (frank a < frank b \<or> (frank a = frank b \<and> fval a < fval b)))"

definition feq :: "pyfloat \<Rightarrow> pyfloat \<Rightarrow> bool" where
  "feq a b = (a \<noteq> NaN \<and> b \<noteq> NaN \<and> frank a = frank b \<and> fval a = fval b)"

subsection \<open>The program's arithmetic on doubles\<close>

text \<open>
  The checks of \<^verbatim>\<open>prompt_grade\<close> (\<^verbatim>\<open>0 <= grade <= 100\<close>) and of
  \<^verbatim>\<open>prompt_weight\<close> (\<^verbatim>\<open>weight > 0\<close>) on doubles. The first accepts the negative
  zero, the second accepts the positive infinity; both reject NaN.
\<close>

definition grade_in_range :: "pyfloat \<Rightarrow> bool" where
  "grade_in_range g = (fle (Finite 0) g \<and> fle g (Finite 100))"

definition weight_positive :: "pyfloat \<Rightarrow> bool" where
  "weight_positive w = flt (Finite 0) w"

text \<open>
  \<^verbatim>\<open>weighted_grade\<close> on doubles; the divisor is the literal \<^verbatim>\<open>100.0\<close>, never a
  zero.
\<close>

definition weighted_grade_ieee :: "assignment_ieee \<Rightarrow> pyfloat" where
  "weighted_grade_ieee a = fmul (fquot (grade a) (Finite 100)) (weight a)"

text \<open>
  \<^verbatim>\<open>sum\<close> starts at the integer 0 and adds from left to right. (CPython 3.12 and
  later carry a compensation term when summing floats; the model is the plain sum.)
\<close>

definition py_sum :: "pyfloat list \<Rightarrow> pyfloat" where
  "py_sum xs = foldl fadd (Finite 0) xs"

text \<open>\<^verbatim>\<open>calculate_totals\<close> on doubles.\<close>

definition calculate_totals_ieee :: "assignment_ieee list \<Rightarrow> totals_ieee" where
  "calculate_totals_ieee assignments =
     (let tf = py_sum (map weighted_grade_ieee (filter (\<lambda>a. category a = ''FA'') assignments));
          ts = py_sum (map weighted_grade_ieee (filter (\<lambda>a. category a = ''SA'') assignments));
          fw = py_sum (map weight (filter (\<lambda>a. category a = ''FA'') assignments));
          sw = py_sum (map weight (filter (\<lambda>a. category a = ''SA'') assignments));
          fg = fadd tf ts;
          g = fmul (fquot fg (Finite 100)) (Finite 5);
          ft = fmul fw (Finite 0.5);
          st = fmul sw (Finite 0.5);
          p = ((if flt (Finite 0) fw then fle ft tf else True) \<and>
               (if flt (Finite 0) sw then fle st ts else True))
      in \<lparr> total_formative = tf, total_summative = ts,
           total_fa_weight = fw, total_sa_weight = sw,
           final_grade = fg, gpa = g,
           fa_threshold = ft, sa_threshold = st, passes = p \<rparr>)"



text \<open>
  The format specification \<^verbatim>\<open>.2f\<close> on doubles: a finite double is printed from its
  exact value, the negative zero as \<^verbatim>\<open>-0.00\<close>, and the others as \<^verbatim>\<open>inf\<close>,
  \<^verbatim>\<open>-inf\<close> and \<^verbatim>\<open>nan\<close>.
\<close>

fun format_2f_ieee :: "pyfloat \<Rightarrow> string" where
  "format_2f_ieee (Finite r) = format_2f r"
| "format_2f_ieee NegZero = ''-0.00''"
| "format_2f_ieee PosInf = ''inf''"
| "format_2f_ieee NegInf = ''-inf''"
| "format_2f_ieee NaN = ''nan''"

text \<open>
  A text with exactly two decimal digits: an optional minus sign, at least one digit, a
  point and two digits.
\<close>

fun drop_sign :: "string \<Rightarrow> string" where
  "drop_sign [] = []"
| "drop_sign (c # cs) = (if c = CHR ''-'' then cs else c # cs)"

definition has_two_decimals :: "string \<Rightarrow> bool" where
  "has_two_decimals s =
     (let body = drop_sign s; n = length body
      in 4 \<le> n \<and> list_all is_digit (take (n - 3) body) \<and> body ! (n - 3) = CHR ''.'' \<and>
         is_digit (body ! (n - 2)) \<and> is_digit (body ! (n - 1)))"

section \<open>The terminal and the file system\<close>

text \<open>
  The state the program acts on: the lines still to be read from standard input (without
  their newline), the chunks written to standard output so far, the files, and which
  paths can be opened for writing.
\<close>

record world =
  stdin :: "string list"
  stdout :: "string list"
  files :: "string \<rightharpoonup> string"
  writable :: "string \<Rightarrow> bool"

text \<open>\<^verbatim>\<open>print(s)\<close> writes the text and a newline.\<close>

definition print_py :: "string \<Rightarrow> world \<Rightarrow> world" where
  "print_py s w = w\<lparr>stdout := stdout w @ [s @ [CHR 0x0A]]\<rparr>"

text \<open>
  \<^verbatim>\<open>input(prompt)\<close> writes the prompt and reads one line; at the end of the input it
  raises \<^verbatim>\<open>EOFError\<close>.
\<close>

definition input_py :: "string \<Rightarrow> world \<Rightarrow> error + (string \<times> world)" where
  "input_py prompt w =
     (case stdin w of
        [] \<Rightarrow> Inl EOFError
      | l # ls \<Rightarrow> Inr (l, w\<lparr>stdin := ls, stdout := stdout w @ [prompt]\<rparr>))"

lemma input_py_stdin:
  "input_py p w = Inr (l, w1) \<Longrightarrow> length (stdin w1) < length (stdin w)"
  by (auto simp: input_py_def split: list.splits)

lemma print_py_stdin [simp]: "stdin (print_py s w) = stdin w"
  by (simp add: print_py_def)

section \<open>The prompts\<close>

function prompt_non_empty :: "string \<Rightarrow> world \<Rightarrow> error + (string \<times> world)" where
  "prompt_non_empty prompt_text w =
     (case input_py prompt_text w of
        Inl e \<Rightarrow> Inl e
      | Inr (line, w1) \<Rightarrow>
          (let v = strip line
           in if v \<noteq> [] then Inr (v, w1)
              else prompt_non_empty prompt_text (print_py ''Value cannot be empty.'' w1)))"
  by pat_completeness auto
termination
  by (relation "measure (\<lambda>(p, w). length (stdin w))") (auto dest: input_py_stdin)

declare prompt_non_empty.simps [simp del]

function prompt_category :: "world \<Rightarrow> error + (string \<times> world)" where
  "prompt_category w =
     (case input_py ''Category (FA/SA): '' w of
        Inl e \<Rightarrow> Inl e
      | Inr (line, w1) \<Rightarrow>
          (let cat = upper (strip line)
           in if cat \<in> set [''FA'', ''SA''] then Inr (cat, w1)
              else prompt_category
                     (print_py (''Category must be 'FA' or 'SA'' @ [CHR 0x27]) w1)))"
  by pat_completeness auto
termination
  by (relation "measure (\<lambda>w. length (stdin w))") (auto dest: input_py_stdin)

declare prompt_category.simps [simp del]

function prompt_grade :: "(string \<Rightarrow> real option) \<Rightarrow> world \<Rightarrow> error + (real \<times> world)" where
  "prompt_grade float_of w =
     (case input_py ''Grade (0-100): '' w of
        Inl e \<Rightarrow> Inl e
      | Inr (line, w1) \<Rightarrow>
          (let raw = strip line
           in case float_of raw of
                None \<Rightarrow> prompt_grade float_of (print_py ''Grade must be between 0 and 100'' w1)
              | Some g \<Rightarrow>
                  if 0 \<le> g \<and> g \<le> 100 then Inr (g, w1)
                  else prompt_grade float_of (print_py ''Grade must be between 0 and 100'' w1)))"
  by pat_completeness auto
termination
  by (relation "measure (\<lambda>(f, w). length (stdin w))") (auto dest: input_py_stdin)

declare prompt_grade.simps [simp del]

function prompt_weight :: "(string \<Rightarrow> real option) \<Rightarrow> world \<Rightarrow> error + (real \<times> world)" where
  "prompt_weight float_of w =
     (case input_py ''Weight (> 0): '' w of
        Inl e \<Rightarrow> Inl e
      | Inr (line, w1) \<Rightarrow>
          (let raw = strip line
           in case float_of raw of
                None \<Rightarrow> prompt_weight float_of (print_py ''Weight must be a positive number'' w1)
              | Some wt \<Rightarrow>
                  if wt > 0 then Inr (wt, w1)
                  else prompt_weight float_of (print_py ''Weight must be a positive number'' w1)))"
  by pat_completeness auto
termination
  by (relation "measure (\<lambda>(f, w). length (stdin w))") (auto dest: input_py_stdin)

declare prompt_weight.simps [simp del]

function prompt_continue :: "world \<Rightarrow> error + (bool \<times> world)" where
  "prompt_continue w =
     (case input_py ''Add another assignment? (y/n): '' w of
        Inl e \<Rightarrow> Inl e
      | Inr (line, w1) \<Rightarrow>
          (let response = lower (strip line)
           in if response \<in> set [''y'', ''yes''] then Inr (True, w1)
              else if response \<in> set [''n'', ''no''] then Inr (False, w1)
              else prompt_continue (print_py ''Please enter 'y' or 'n'.'' w1)))"
  by pat_completeness auto
termination
  by (relation "measure (\<lambda>w. length (stdin w))") (auto dest: input_py_stdin)

declare prompt_continue.simps [simp del]

subsection \<open>What the prompts return\<close>

lemma input_py_cases:
  "input_py p w = Inl EOFError \<or>
   (\<exists>l w1. input_py p w = Inr (l, w1) \<and> length (stdin w1) < length (stdin w))"
  by (auto simp: input_py_def split: list.splits)

lemma prompt_non_empty_result:
  "prompt_non_empty p w = Inr (v, w') \<Longrightarrow>
     v \<noteq> [] \<and> (\<exists>l. v = strip l) \<and> length (stdin w') < length (stdin w)"
proof (induction p w rule: prompt_non_empty.induct)
  case (1 p w)
  note unf = prompt_non_empty.simps [of p w]
  from input_py_cases [of p w] show ?case
  proof (elim disjE exE conjE)
    assume "input_py p w = Inl EOFError"
    with "1.prems" unf show ?thesis by simp
  next
    fix l w1
    assume inp: "input_py p w = Inr (l, w1)"
      and lt: "length (stdin w1) < length (stdin w)"
    let ?w2 = "print_py ''Value cannot be empty.'' w1"
    show ?thesis
    proof (cases "strip l \<noteq> []")
      case True
      with "1.prems" inp unf lt show ?thesis by (auto simp: Let_def)
    next
      case False
      with inp unf have "prompt_non_empty p w = prompt_non_empty p ?w2"
        by (simp add: Let_def)
      with "1.IH" [OF inp refl refl] False "1.prems" lt show ?thesis by simp
    qed
  qed
qed

lemma prompt_category_result:
  "prompt_category w = Inr (v, w') \<Longrightarrow>
     (v = ''FA'' \<or> v = ''SA'') \<and> length (stdin w') < length (stdin w)"
proof (induction w rule: prompt_category.induct)
  case (1 w)
  note unf = prompt_category.simps [of w]
  from input_py_cases [of "''Category (FA/SA): ''" w] show ?case
  proof (elim disjE exE conjE)
    assume "input_py ''Category (FA/SA): '' w = Inl EOFError"
    with "1.prems" unf show ?thesis by simp
  next
    fix l w1
    assume inp: "input_py ''Category (FA/SA): '' w = Inr (l, w1)"
      and lt: "length (stdin w1) < length (stdin w)"
    let ?w2 = "print_py (''Category must be 'FA' or 'SA'' @ [CHR 0x27]) w1"
    show ?thesis
    proof (cases "upper (strip l) \<in> set [''FA'', ''SA'']")
      case True
      with inp unf have "prompt_category w = Inr (upper (strip l), w1)"
        by (simp add: Let_def)
      with "1.prems" True lt show ?thesis by auto
    next
      case False
      with inp unf have "prompt_category w = prompt_category ?w2"
        by (simp add: Let_def)
      with "1.IH" [OF inp refl refl False] "1.prems" lt show ?thesis by simp
    qed
  qed
qed

lemma prompt_grade_result:
  "prompt_grade f w = Inr (v, w') \<Longrightarrow>
     0 \<le> v \<and> v \<le> 100 \<and> length (stdin w') < length (stdin w)"
proof (induction f w rule: prompt_grade.induct)
  case (1 f w)
  note unf = prompt_grade.simps [of f w]
  from input_py_cases [of "''Grade (0-100): ''" w] show ?case
  proof (elim disjE exE conjE)
    assume "input_py ''Grade (0-100): '' w = Inl EOFError"
    with "1.prems" unf show ?thesis by simp
  next
    fix l w1
    assume inp: "input_py ''Grade (0-100): '' w = Inr (l, w1)"
      and lt: "length (stdin w1) < length (stdin w)"
    let ?w2 = "print_py ''Grade must be between 0 and 100'' w1"
    consider (ok) "prompt_grade f w = Inr (the (f (strip l)), w1)"
        "0 \<le> the (f (strip l))" "the (f (strip l)) \<le> 100"
      | (none) "f (strip l) = None" "prompt_grade f w = prompt_grade f ?w2"
      | (bad) g where "f (strip l) = Some g" "\<not> (0 \<le> g \<and> g \<le> 100)"
          "prompt_grade f w = prompt_grade f ?w2"
      using inp unf
      by (cases "f (strip l)"; cases "0 \<le> the (f (strip l)) \<and> the (f (strip l)) \<le> 100")
         (auto simp: Let_def)
    then show ?thesis
    proof cases
      case ok
      with "1.prems" lt show ?thesis by simp
    next
      case none
      with "1.IH"(1) [OF inp refl refl none(1)] "1.prems" lt show ?thesis by simp
    next
      case bad
      with "1.IH"(2) [OF inp refl refl bad(1) bad(2)] "1.prems" lt show ?thesis by simp
    qed
  qed
qed

lemma prompt_weight_result:
  "prompt_weight f w = Inr (v, w') \<Longrightarrow> 0 < v \<and> length (stdin w') < length (stdin w)"
proof (induction f w rule: prompt_weight.induct)
  case (1 f w)
  note unf = prompt_weight.simps [of f w]
  from input_py_cases [of "''Weight (> 0): ''" w] show ?case
  proof (elim disjE exE conjE)
    assume "input_py ''Weight (> 0): '' w = Inl EOFError"
    with "1.prems" unf show ?thesis by simp
  next
    fix l w1
    assume inp: "input_py ''Weight (> 0): '' w = Inr (l, w1)"
      and lt: "length (stdin w1) < length (stdin w)"
    let ?w2 = "print_py ''Weight must be a positive number'' w1"
    consider (ok) "prompt_weight f w = Inr (the (f (strip l)), w1)" "0 < the (f (strip l))"
      | (none) "f (strip l) = None" "prompt_weight f w = prompt_weight f ?w2"
      | (bad) g where "f (strip l) = Some g" "\<not> 0 < g"
          "prompt_weight f w = prompt_weight f ?w2"
      using inp unf
      by (cases "f (strip l)"; cases "0 < the (f (strip l))") (auto simp: Let_def)
    then show ?thesis
    proof cases
      case ok
      with "1.prems" lt show ?thesis by simp
    next
      case none
      with "1.IH"(1) [OF inp refl refl none(1)] "1.prems" lt show ?thesis by simp
    next
      case bad
      with "1.IH"(2) [OF inp refl refl bad(1) bad(2)] "1.prems" lt show ?thesis by simp
    qed
  qed
qed

lemma prompt_continue_result:
  "prompt_continue w = Inr (v, w') \<Longrightarrow> length (stdin w') < length (stdin w)"
proof (induction w rule: prompt_continue.induct)
  case (1 w)
  note unf = prompt_continue.simps [of w]
  from input_py_cases [of "''Add another assignment? (y/n): ''" w] show ?case
  proof (elim disjE exE conjE)
    assume "input_py ''Add another assignment? (y/n): '' w = Inl EOFError"
    with "1.prems" unf show ?thesis by simp
  next
    fix l w1
    assume inp: "input_py ''Add another assignment? (y/n): '' w = Inr (l, w1)"
      and lt: "length (stdin w1) < length (stdin w)"
    let ?w2 = "print_py ''Please enter 'y' or 'n'.'' w1"
    let ?r = "lower (strip l)"
    consider (yes) "prompt_continue w = Inr (True, w1)"
      | (no) "prompt_continue w = Inr (False, w1)"
      | (again) "?r \<notin> set [''y'', ''yes'']" "?r \<notin> set [''n'', ''no'']"
          "prompt_continue w = prompt_continue ?w2"
      using inp unf
      by (cases "?r \<in> set [''y'', ''yes'']"; cases "?r \<in> set [''n'', ''no'']")
         (simp_all add: Let_def)
    then show ?thesis
    proof cases
      case yes
      with "1.prems" lt show ?thesis by simp
    next
      case no
      with "1.prems" lt show ?thesis by simp
    next
      case again
      with "1.IH" [OF inp refl refl again(1) again(2)] "1.prems" lt show ?thesis by simp
    qed
  qed
qed

section \<open>The session\<close>

text \<open>
  The \<^verbatim>\<open>while True\<close> loop of \<^verbatim>\<open>collect_assignments\<close>, with the list built so far
  as an argument; every round reads at least five lines.
\<close>

function collect_assignments_loop ::
  "(string \<Rightarrow> real option) \<Rightarrow> assignment list \<Rightarrow> world \<Rightarrow> error + (assignment list \<times> world)"
where
  "collect_assignments_loop float_of assignments w =
     (case prompt_non_empty ''Assignment Name: ''
             (print_py ([CHR 0x0A] @ ''Enter assignment details:'') w) of
        Inl e \<Rightarrow> Inl e
      | Inr (n, w1) \<Rightarrow>
     (case prompt_category w1 of
        Inl e \<Rightarrow> Inl e
      | Inr (c, w2) \<Rightarrow>
     (case prompt_grade float_of w2 of
        Inl e \<Rightarrow> Inl e
      | Inr (g, w3) \<Rightarrow>
     (case prompt_weight float_of w3 of
        Inl e \<Rightarrow> Inl e
      | Inr (wt, w4) \<Rightarrow>
     (case prompt_continue w4 of
        Inl e \<Rightarrow> Inl e
      | Inr (again, w5) \<Rightarrow>
          if \<not> again then Inr (assignments @ [Assignment n c g wt], w5)
          else collect_assignments_loop float_of (assignments @ [Assignment n c g wt]) w5)))))"
  by pat_completeness auto
termination
  apply (relation "measure (\<lambda>(f, xs, w). length (stdin w))")
   apply simp
  apply clarsimp
  apply (drule prompt_non_empty_result prompt_category_result prompt_grade_result
      prompt_weight_result prompt_continue_result)+
  apply simp
  done

declare collect_assignments_loop.simps [simp del]

definition collect_assignments ::
  "(string \<Rightarrow> real option) \<Rightarrow> world \<Rightarrow> error + (assignment list \<times> world)" where
  "collect_assignments float_of w = collect_assignments_loop float_of [] w"

section \<open>Presentation\<close>

text \<open>The \<^verbatim>\<open>for idx, assignment in enumerate(assignments, start=1)\<close> loop.\<close>

fun print_summary_items :: "nat \<Rightarrow> assignment list \<Rightarrow> world \<Rightarrow> world" where
  "print_summary_items idx [] w = w"
| "print_summary_items idx (a # as) w =
     print_summary_items (idx + 1) as
       (print_py (str_nat idx @ ''. '' @ name a @ '' ('' @ category a @ ''): '' @
                  format_2f (grade a) @ ''% - Weight: '' @ format_2f (weight a) @
                  '' - Weighted: '' @ format_2f (weighted_grade a)) w)"

definition failed_line :: "string \<Rightarrow> real \<Rightarrow> real \<Rightarrow> string" where
  "failed_line cat achieved need =
     ''Failed '' @ cat @ '' (achieved '' @ format_2f achieved @ '' / need '' @
     format_2f need @ '')''"

definition print_summary :: "assignment list \<Rightarrow> totals \<Rightarrow> world \<Rightarrow> error + world" where
  "print_summary assignments t w =
     (let w1 = print_py ([CHR 0x0A] @ ''=== GRADE SUMMARY ==='' @ [CHR 0x0A]) w;
          w2 = print_py ''Assignments Entered:'' w1;
          w3 = print_summary_items 1 assignments w2;
          w4 = print_py ([CHR 0x0A] @ ''Category Breakdown:'') w3
      in case format_percentage (total_formative t) (total_fa_weight t) of
           Inl e \<Rightarrow> Inl e
         | Inr fa_percentage \<Rightarrow>
      (case format_percentage (total_summative t) (total_sa_weight t) of
           Inl e \<Rightarrow> Inl e
         | Inr sa_percentage \<Rightarrow>
      (let w5 = print_py (''- Total Formative (FA): '' @ format_2f (total_formative t) @ ''/'' @
                          format_2f (total_fa_weight t) @ '' ('' @ format_2f fa_percentage @
                          ''%)'') w4;
           w6 = print_py (''- Total Summative (SA): '' @ format_2f (total_summative t) @ ''/'' @
                          format_2f (total_sa_weight t) @ '' ('' @ format_2f sa_percentage @
                          ''%)'') w5;
           w7 = print_py ([CHR 0x0A] @ ''Final Results:'') w6;
           w8 = print_py (''- Total Grade: '' @ format_2f (final_grade t) @ ''/100'') w7;
           w9 = print_py (''- GPA: '' @ format_2f (gpa t) @ ''/5.0'') w8;
           w10 = print_py (''- Status: '' @ (if passes t then ''PASS'' else ''FAIL'')) w9
       in if \<not> passes t
          then (let w11 = (if total_fa_weight t > 0 \<and> total_formative t < fa_threshold t
                           then print_py (failed_line ''FA'' (total_formative t) (fa_threshold t)) w10
                           else w10);
                    w12 = (if total_sa_weight t > 0 \<and> total_summative t < sa_threshold t
                           then print_py (failed_line ''SA'' (total_summative t) (sa_threshold t)) w11
                           else w11)
                in Inr w12)
          else Inr w10)))"

section \<open>Persistence\<close>

text \<open>
  \<^verbatim>\<open>csv.DictWriter\<close> with the default dialect: fields separated by a comma, a field
  holding a comma, a double quote, a carriage return or a line feed is enclosed in
  double quotes with its double quotes doubled, and every row ends with
  \<^verbatim>\<open>\r\n\<close>. The file is opened with \<^verbatim>\<open>newline=""\<close>, so the text is written
  as it is.
\<close>

definition csv_special :: "char \<Rightarrow> bool" where
  "csv_special c = (c \<in> set [CHR '','', CHR 0x22, CHR 0x0D, CHR 0x0A])"

definition csv_field :: "string \<Rightarrow> string" where
  "csv_field f =
     (if list_ex csv_special f
      then [CHR 0x22] @ concat (map (\<lambda>c. if c = CHR 0x22 then [c, c] else [c]) f) @ [CHR 0x22]
      else f)"

fun join_comma :: "string list \<Rightarrow> string" where
  "join_comma [] = []"
| "join_comma [f] = f"
| "join_comma (f # fs) = f @ '','' @ join_comma fs"

definition csv_line :: "string list \<Rightarrow> string" where
  "csv_line row = join_comma (map csv_field row) @ [CHR 0x0D, CHR 0x0A]"

text \<open>
  The row \<^verbatim>\<open>writer.writerow\<close> receives for one record, in the order of
  \<^verbatim>\<open>fieldnames\<close>.
\<close>

definition csv_record :: "assignment \<Rightarrow> string list" where
  "csv_record a = [name a, category a, format_2f (grade a), format_2f (weight a)]"

text \<open>
  \<^verbatim>\<open>open(filename, mode="w")\<close> raises \<^verbatim>\<open>OSError\<close> when the path cannot be
  written; otherwise the file is replaced by the header and the rows, written in turn.
\<close>

definition write_csv :: "assignment list \<Rightarrow> string \<Rightarrow> world \<Rightarrow> error + world" where
  "write_csv assignments filename w =
     (if \<not> writable w filename then Inl OSError
      else Inr (w\<lparr>files := (files w)(filename \<mapsto>
                  foldl (\<lambda>buf a. buf @ csv_line (csv_record a))
                        (csv_line [''Assignment'', ''Category'', ''Grade'', ''Weight''])
                        assignments)\<rparr>))"

text \<open>\<^verbatim>\<open>write_csv\<close> on records of doubles.\<close>

definition csv_record_ieee :: "assignment_ieee \<Rightarrow> string list" where
  "csv_record_ieee a =
     [name a, category a, format_2f_ieee (grade a), format_2f_ieee (weight a)]"

definition write_csv_ieee :: "assignment_ieee list \<Rightarrow> string \<Rightarrow> world \<Rightarrow> error + world" where
  "write_csv_ieee assignments filename w =
     (if \<not> writable w filename then Inl OSError
      else Inr (w\<lparr>files := (files w)(filename \<mapsto>
                  foldl (\<lambda>buf a. buf @ csv_line (csv_record_ieee a))
                        (csv_line [''Assignment'', ''Category'', ''Grade'', ''Weight''])
                        assignments)\<rparr>))"

section \<open>The program\<close>

text \<open>
  \<^verbatim>\<open>main\<close>, with the collecting function as a parameter, so that the branch for an
  empty list can be exercised; the program runs it with \<open>collect_assignments\<close>.
\<close>

definition main_with ::
  "(world \<Rightarrow> error + (assignment list \<times> world)) \<Rightarrow> world \<Rightarrow> error + world" where
  "main_with collect w =
     (case collect w of
        Inl e \<Rightarrow> Inl e
      | Inr (assignments, w1) \<Rightarrow>
          if assignments = []
          then Inr (print_py ''No assignments entered. Exiting without generating summary.'' w1)
          else (case print_summary assignments (calculate_totals assignments) w1 of
                  Inl e \<Rightarrow> Inl e
                | Inr w2 \<Rightarrow>
               (case write_csv assignments ''grades.csv'' w2 of
                  Inl e \<Rightarrow> Inl e
                | Inr w3 \<Rightarrow> Inr (print_py ([CHR 0x0A] @ ''Data saved to grades.csv'') w3))))"

definition main :: "(string \<Rightarrow> real option) \<Rightarrow> world \<Rightarrow> error + world" where
  "main float_of w = main_with (collect_assignments float_of) w"

subsection \<open>Concrete inputs\<close>

text \<open>
  A world with the given input lines, nothing printed, no files, every path writable.
\<close>

definition world0 :: "string list \<Rightarrow> world" where
  "world0 inp = \<lparr> stdin = inp, stdout = [], files = Map.empty, writable = (\<lambda>_. True) \<rparr>"

text \<open>
  A session in which one record is entered, with a rejected grade (\<^verbatim>\<open>abc\<close>) and a rejected weight
  (\<^verbatim>\<open>-5\<close>) on the way.
\<close>

definition session_input :: "string list" where
  "session_input = [''Quiz1'', '' fa '', ''abc'', ''80'', ''-5'', ''20'', ''n'']"

section \<open>Properties of the aggregation\<close>

lemma calculate_totals_fields:
  "total_formative (calculate_totals xs) =
     sum_list (map weighted_grade (filter (\<lambda>a. category a = ''FA'') xs))"
  "total_summative (calculate_totals xs) =
     sum_list (map weighted_grade (filter (\<lambda>a. category a = ''SA'') xs))"
  "total_fa_weight (calculate_totals xs) =
     sum_list (map weight (filter (\<lambda>a. category a = ''FA'') xs))"
  "total_sa_weight (calculate_totals xs) =
     sum_list (map weight (filter (\<lambda>a. category a = ''SA'') xs))"
  "final_grade (calculate_totals xs) =
     total_formative (calculate_totals xs) + total_summative (calculate_totals xs)"
  "gpa (calculate_totals xs) = (final_grade (calculate_totals xs) / 100) * 5"
  "fa_threshold (calculate_totals xs) = total_fa_weight (calculate_totals xs) * 0.5"
  "sa_threshold (calculate_totals xs) = total_sa_weight (calculate_totals xs) * 0.5"
  by (simp_all add: calculate_totals_def Let_def)

lemma calculate_totals_passes_unfold:
  "passes (calculate_totals xs) =
     ((if total_fa_weight (calculate_totals xs) > 0
       then total_formative (calculate_totals xs) \<ge> fa_threshold (calculate_totals xs)
       else True) \<and>
      (if total_sa_weight (calculate_totals xs) > 0
       then total_summative (calculate_totals xs) \<ge> sa_threshold (calculate_totals xs)
       else True))"
  by (simp add: calculate_totals_def Let_def)


text \<open>
  C4. \<open>format_percentage\<close> never raises: it returns 0 when the weight total is at most 0,
  in particular at 0, and (value / total) * 100 when the weight total is positive.
\<close>

theorem format_percentage_total:
  "format_percentage x total_weight =
     Inr (if total_weight \<le> 0 then 0 else (x / total_weight) * 100) \<and>
   format_percentage x 0 = Inr 0"
  by (simp add: format_percentage_def py_div_def)

text \<open>
  C5. The GPA is (final_grade / 100) * 5, which is final_grade * 0.05; a final grade of
  100 gives a GPA of 5.
\<close>

theorem calculate_totals_gpa:
  "gpa (calculate_totals xs) = (final_grade (calculate_totals xs) / 100) * 5 \<and>
   gpa (calculate_totals xs) = final_grade (calculate_totals xs) * 0.05 \<and>
   (final_grade (calculate_totals xs) = 100 \<longrightarrow> gpa (calculate_totals xs) = 5)"
  by (simp add: calculate_totals_fields(6))

theorem calculate_totals_gpa_witness:
  "final_grade (calculate_totals [Assignment ''Exam'' ''SA'' 100 100]) = 100 \<and>
   gpa (calculate_totals [Assignment ''Exam'' ''SA'' 100 100]) = 5"
  using calculate_totals_gpa [of "[Assignment ''Exam'' ''SA'' 100 100]"]
  by (simp add: calculate_totals_fields Assignment_def weighted_grade_def)



section \<open>Properties of the formatting\<close>

lemma of_char_digit_char: "d < 10 \<Longrightarrow> (of_char (digit_char d) :: nat) = 48 + d"
  by (simp add: digit_char_def)

lemma is_digit_digit_char: "d < 10 \<Longrightarrow> is_digit (digit_char d)"
  by (simp add: is_digit_def of_char_digit_char)

lemma str_nat_digits: "str_nat n \<noteq> [] \<and> list_all is_digit (str_nat n)"
proof (induction n rule: str_nat.induct)
  case (1 n)
  show ?case
  proof (cases "n < 10")
    case True
    then show ?thesis by (simp add: str_nat.simps [of n] is_digit_digit_char)
  next
    case False
    with "1.IH" show ?thesis
      by (simp add: str_nat.simps [of n] is_digit_digit_char)
  qed
qed

lemma is_digit_not_special:
  "is_digit c \<Longrightarrow> \<not> csv_special c \<and> c \<noteq> CHR ''.'' \<and> c \<noteq> CHR ''F''"
  by (auto simp: is_digit_def csv_special_def)

lemma format_2f_shape:
  "\<exists>sign ip d1 d2. format_2f x = sign @ ip @ ''.'' @ [d1, d2] \<and>
     (sign = [] \<or> sign = ''-'') \<and> ip \<noteq> [] \<and> list_all is_digit ip \<and>
     is_digit d1 \<and> is_digit d2"
proof -
  define n where "n = nat (round_half_even (\<bar>x\<bar> * 100))"
  have eq: "format_2f x = (if x < 0 then ''-'' else []) @ str_nat (n div 100) @ ''.'' @
         [digit_char (n mod 100 div 10), digit_char (n mod 10)]"
    by (simp add: format_2f_def n_def Let_def)
  have "n mod 100 div 10 < 10" "n mod 10 < 10" by auto
  then have d: "is_digit (digit_char (n mod 100 div 10))" "is_digit (digit_char (n mod 10))"
    by (simp_all only: is_digit_digit_char)
  show ?thesis
  proof (intro exI conjI)
    show "format_2f x = (if x < 0 then ''-'' else []) @ str_nat (n div 100) @ ''.'' @
         [digit_char (n mod 100 div 10), digit_char (n mod 10)]" by (rule eq)
  qed (use d str_nat_digits [of "n div 100"] in simp_all)
qed

lemma format_2f_unquoted: "csv_field (format_2f x) = format_2f x"
proof -
  obtain sign ip d1 d2 where f: "format_2f x = sign @ ip @ ''.'' @ [d1, d2]"
    and s: "sign = [] \<or> sign = ''-''" and ip: "list_all is_digit ip"
    and d: "is_digit d1" "is_digit d2"
    using format_2f_shape [of x] by blast
  have a: "\<not> list_ex csv_special ip"
    using ip is_digit_not_special by (auto simp: list_all_iff list_ex_iff)
  have b: "\<not> list_ex csv_special sign"
    using s by (auto simp: csv_special_def)
  have c: "\<not> csv_special (CHR ''.'')" by (simp add: csv_special_def)
  have "\<not> list_ex csv_special (format_2f x)"
    using a b c d is_digit_not_special by (simp add: f)
  then show ?thesis by (simp add: csv_field_def)
qed

lemma foldl_append_rows:
  "foldl (\<lambda>buf a. buf @ g a) init xs = init @ concat (map g xs)"
  by (induction xs arbitrary: init) simp_all

lemma csv_header_line: "csv_line [''Assignment'', ''Category'', ''Grade'', ''Weight''] =
      ''Assignment,Category,Grade,Weight'' @ [CHR 0x0D, CHR 0x0A]"
    by (simp add: csv_line_def csv_field_def csv_special_def)

lemma digit_char_values:
  "digit_char 0 = CHR ''0''" "digit_char 1 = CHR ''1''" "digit_char 2 = CHR ''2''"
  "digit_char 3 = CHR ''3''" "digit_char 4 = CHR ''4''" "digit_char 5 = CHR ''5''"
  "digit_char 6 = CHR ''6''" "digit_char 7 = CHR ''7''" "digit_char 8 = CHR ''8''"
  "digit_char 9 = CHR ''9''"
  by code_simp+

lemma format_2f_examples:
  "format_2f 80 = ''80.00''" "format_2f 20 = ''20.00''" "format_2f 60 = ''60.00''"
  by (simp_all add: format_2f_def round_half_even_def str_nat.simps digit_char_values Let_def)

section \<open>Properties of the program\<close>

text \<open>
  C7. When the collected list is empty, \<open>main\<close> prints the message
  \<^verbatim>\<open>No assignments entered. Exiting without generating summary.\<close> and returns: the
  output grows by that one line, and nothing else of the state changes; in particular no
  summary is printed and no file is written.
\<close>

theorem main_empty_session:
  "collect w = Inr ([], w1) \<Longrightarrow>
     main_with collect w =
       Inr (w1\<lparr>stdout := stdout w1 @
              [''No assignments entered. Exiting without generating summary.'' @ [CHR 0x0A]]\<rparr>) \<and>
     (\<exists>w'. main_with collect w = Inr w' \<and> files w' = files w1 \<and> stdin w' = stdin w1 \<and>
        stdout w' = stdout w1 @
          [''No assignments entered. Exiting without generating summary.'' @ [CHR 0x0A]])"
  by (simp add: main_with_def print_py_def)

theorem main_empty_session_witness:
  "(case main_with (\<lambda>w. Inr ([], w)) (world0 []) of
      Inl e \<Rightarrow> None
    | Inr w' \<Rightarrow> Some (stdout w', files w' ''grades.csv'')) =
   Some ([''No assignments entered. Exiting without generating summary.'' @ [CHR 0x0A]], None)"
  using main_empty_session [of "\<lambda>w. Inr ([], w)" "world0 []" "world0 []"]
  by (simp add: world0_def)

section \<open>Properties of the summary\<close>

lemma format_percentage_value:
  "format_percentage x tw = Inr (if tw \<le> 0 then 0 else (x / tw) * 100)"
  by (simp add: format_percentage_def py_div_def)

lemma str_nat_not_Failed: "\<not> prefix ''Failed '' (str_nat i @ rest)"
proof -
  obtain d ds where s: "str_nat i = d # ds" and "is_digit d"
    using str_nat_digits [of i] by (cases "str_nat i") auto
  then have "d \<noteq> CHR ''F''" using is_digit_not_special by blast
  then show ?thesis by (simp add: s)
qed

lemma print_summary_items_stdout:
  "\<exists>ls. print_summary_items i xs w = w\<lparr>stdout := stdout w @ ls\<rparr> \<and>
        length ls = length xs \<and> filter (prefix ''Failed '') ls = []"
proof (induction xs arbitrary: i w)
  case Nil
  show ?case by simp
next
  case (Cons a as)
  let ?l = "str_nat i @ ''. '' @ name a @ '' ('' @ category a @ ''): '' @
            format_2f (grade a) @ ''% - Weight: '' @ format_2f (weight a) @
            '' - Weighted: '' @ format_2f (weighted_grade a)"
  obtain ls where ls: "print_summary_items (i + 1) as (print_py ?l w) =
      (print_py ?l w)\<lparr>stdout := stdout (print_py ?l w) @ ls\<rparr>"
    "length ls = length as" "filter (prefix ''Failed '') ls = []"
    using Cons.IH [of "i + 1" "print_py ?l w"] by blast
  have "\<not> prefix ''Failed '' (?l @ [CHR 0x0A])"
    using str_nat_not_Failed [of i] by (metis append.assoc)
  with ls show ?case
    by (intro exI [of _ "(?l @ [CHR 0x0A]) # ls"]) (simp add: print_py_def)
qed

lemma failed_line_prefix:
  "prefix ''Failed '' (failed_line c a n)" "prefix ''Failed '' (failed_line c a n @ rest)"
  by (simp_all add: failed_line_def)

lemma print_py_stdout: "stdout (print_py s w) = stdout w @ [s @ [CHR 0x0A]]"
  by (simp add: print_py_def)

lemma print_summary_stdout:
  "\<exists>w' body. print_summary xs t w = Inr w' \<and>
      filter (prefix ''Failed '') body = [] \<and>
      stdout w' = stdout w @ body @
        (if \<not> passes t \<and> total_fa_weight t > 0 \<and> total_formative t < fa_threshold t
         then [failed_line ''FA'' (total_formative t) (fa_threshold t) @ [CHR 0x0A]] else []) @
        (if \<not> passes t \<and> total_sa_weight t > 0 \<and> total_summative t < sa_threshold t
         then [failed_line ''SA'' (total_summative t) (sa_threshold t) @ [CHR 0x0A]] else [])"
proof -
  define w2 where "w2 = print_py ''Assignments Entered:''
               (print_py ([CHR 0x0A] @ ''=== GRADE SUMMARY ==='' @ [CHR 0x0A]) w)"
  obtain ls where ls: "print_summary_items 1 xs w2 = w2\<lparr>stdout := stdout w2 @ ls\<rparr>"
    and nf: "filter (prefix ''Failed '') ls = []"
    using print_summary_items_stdout [of 1 xs w2] by blast
  define fa_p where "fa_p = (if total_fa_weight t \<le> 0 then 0 else total_formative t / total_fa_weight t * 100)"
  define sa_p where "sa_p = (if total_sa_weight t \<le> 0 then 0 else total_summative t / total_sa_weight t * 100)"
  define w10 where "w10 =
     print_py (''- Status: '' @ (if passes t then ''PASS'' else ''FAIL''))
      (print_py (''- GPA: '' @ format_2f (gpa t) @ ''/5.0'')
       (print_py (''- Total Grade: '' @ format_2f (final_grade t) @ ''/100'')
        (print_py ([CHR 0x0A] @ ''Final Results:'')
         (print_py (''- Total Summative (SA): '' @ format_2f (total_summative t) @ ''/'' @
                          format_2f (total_sa_weight t) @ '' ('' @ format_2f sa_p @ ''%)'')
          (print_py (''- Total Formative (FA): '' @ format_2f (total_formative t) @ ''/'' @
                          format_2f (total_fa_weight t) @ '' ('' @ format_2f fa_p @ ''%)'')
           (print_py ([CHR 0x0A] @ ''Category Breakdown:'') (print_summary_items 1 xs w2)))))))"
  have ps: "print_summary xs t w =
     Inr (if \<not> passes t
          then (let w11 = (if total_fa_weight t > 0 \<and> total_formative t < fa_threshold t
                           then print_py (failed_line ''FA'' (total_formative t) (fa_threshold t)) w10
                           else w10);
                    w12 = (if total_sa_weight t > 0 \<and> total_summative t < sa_threshold t
                           then print_py (failed_line ''SA'' (total_summative t) (sa_threshold t)) w11
                           else w11)
                in w12)
          else w10)"
    unfolding print_summary_def format_percentage_value w10_def w2_def fa_p_def sa_p_def
    by (simp add: Let_def)
  obtain body where body: "stdout w10 = stdout w @ body" "filter (prefix ''Failed '') body = []"
  proof
    show "stdout w10 = stdout w @
       ([([CHR 0x0A] @ ''=== GRADE SUMMARY ==='' @ [CHR 0x0A]) @ [CHR 0x0A],
         ''Assignments Entered:'' @ [CHR 0x0A]] @ ls @
        [([CHR 0x0A] @ ''Category Breakdown:'') @ [CHR 0x0A],
         (''- Total Formative (FA): '' @ format_2f (total_formative t) @ ''/'' @
                          format_2f (total_fa_weight t) @ '' ('' @ format_2f fa_p @ ''%)'') @ [CHR 0x0A],
         (''- Total Summative (SA): '' @ format_2f (total_summative t) @ ''/'' @
                          format_2f (total_sa_weight t) @ '' ('' @ format_2f sa_p @ ''%)'') @ [CHR 0x0A],
         ([CHR 0x0A] @ ''Final Results:'') @ [CHR 0x0A],
         (''- Total Grade: '' @ format_2f (final_grade t) @ ''/100'') @ [CHR 0x0A],
         (''- GPA: '' @ format_2f (gpa t) @ ''/5.0'') @ [CHR 0x0A],
         (''- Status: '' @ (if passes t then ''PASS'' else ''FAIL'')) @ [CHR 0x0A]])"
      unfolding w10_def print_py_stdout ls unfolding w2_def by (simp add: print_py_stdout)
    show "filter (prefix ''Failed '')
       ([([CHR 0x0A] @ ''=== GRADE SUMMARY ==='' @ [CHR 0x0A]) @ [CHR 0x0A],
         ''Assignments Entered:'' @ [CHR 0x0A]] @ ls @
        [([CHR 0x0A] @ ''Category Breakdown:'') @ [CHR 0x0A],
         (''- Total Formative (FA): '' @ format_2f (total_formative t) @ ''/'' @
                          format_2f (total_fa_weight t) @ '' ('' @ format_2f fa_p @ ''%)'') @ [CHR 0x0A],
         (''- Total Summative (SA): '' @ format_2f (total_summative t) @ ''/'' @
                          format_2f (total_sa_weight t) @ '' ('' @ format_2f sa_p @ ''%)'') @ [CHR 0x0A],
         ([CHR 0x0A] @ ''Final Results:'') @ [CHR 0x0A],
         (''- Total Grade: '' @ format_2f (final_grade t) @ ''/100'') @ [CHR 0x0A],
         (''- GPA: '' @ format_2f (gpa t) @ ''/5.0'') @ [CHR 0x0A],
         (''- Status: '' @ (if passes t then ''PASS'' else ''FAIL'')) @ [CHR 0x0A]]) = []"
      by (simp add: nf)
  qed
  show ?thesis
    unfolding ps using body by (auto simp: Let_def print_py_stdout)
qed

text \<open>
  C8. \<open>print_summary\<close> always returns, keeps what was printed before, and the lines
  starting with \<^verbatim>\<open>Failed\<close> among those it prints are exactly: the FA diagnostic
  (naming the achieved total and the threshold of the totals) when the verdict is FAIL,
  the FA weight total is positive and the FA achieved total is below the FA threshold;
  then the SA diagnostic under the same three conditions for SA. No diagnostic is printed
  otherwise.
\<close>

theorem print_summary_diagnostics:
  "\<exists>w'. print_summary xs t w = Inr w' \<and>
      take (length (stdout w)) (stdout w') = stdout w \<and>
      filter (prefix ''Failed '') (drop (length (stdout w)) (stdout w')) =
        (if \<not> passes t \<and> total_fa_weight t > 0 \<and> total_formative t < fa_threshold t
         then [failed_line ''FA'' (total_formative t) (fa_threshold t) @ [CHR 0x0A]]
         else []) @
        (if \<not> passes t \<and> total_sa_weight t > 0 \<and> total_summative t < sa_threshold t
         then [failed_line ''SA'' (total_summative t) (sa_threshold t) @ [CHR 0x0A]]
         else [])"
proof -
  let ?fa = "if \<not> passes t \<and> total_fa_weight t > 0 \<and> total_formative t < fa_threshold t
         then [failed_line ''FA'' (total_formative t) (fa_threshold t) @ [CHR 0x0A]]
         else []"
  let ?sa = "if \<not> passes t \<and> total_sa_weight t > 0 \<and> total_summative t < sa_threshold t
         then [failed_line ''SA'' (total_summative t) (sa_threshold t) @ [CHR 0x0A]]
         else []"
  obtain w' body where r: "print_summary xs t w = Inr w'"
    and nf: "filter (prefix ''Failed '') body = []"
    and out: "stdout w' = stdout w @ body @ ?fa @ ?sa"
    using print_summary_stdout [of xs t w] by blast
  have "filter (prefix ''Failed '') ?fa = ?fa" "filter (prefix ''Failed '') ?sa = ?sa"
    by (simp_all add: failed_line_prefix)
  with nf have "filter (prefix ''Failed '') (body @ ?fa @ ?sa) = ?fa @ ?sa"
    by (simp only: filter_append append_Nil)
  with r out show ?thesis by simp
qed

lemma format_2f_examples2:
  "format_2f 40 = ''40.00''" "format_2f 50 = ''50.00''"
  by (simp_all add: format_2f_def round_half_even_def str_nat.simps digit_char_values Let_def)

theorem print_summary_diagnostics_witness:
  "(case print_summary [Assignment ''Quiz1'' ''FA'' 40 100, Assignment ''Final'' ''SA'' 60 80]
           (calculate_totals [Assignment ''Quiz1'' ''FA'' 40 100, Assignment ''Final'' ''SA'' 60 80])
           (world0 []) of
      Inl e \<Rightarrow> []
    | Inr w' \<Rightarrow> filter (prefix ''Failed '') (stdout w')) =
   [''Failed FA (achieved 40.00 / need 50.00)'' @ [CHR 0x0A]]"
proof -
  let ?xs = "[Assignment ''Quiz1'' ''FA'' 40 100, Assignment ''Final'' ''SA'' 60 80]"
  have t: "total_formative (calculate_totals ?xs) = 40" "fa_threshold (calculate_totals ?xs) = 50"
    "total_fa_weight (calculate_totals ?xs) = 100" "total_summative (calculate_totals ?xs) = 48"
    "sa_threshold (calculate_totals ?xs) = 40" "total_sa_weight (calculate_totals ?xs) = 80"
    "\<not> passes (calculate_totals ?xs)"
    by (simp_all add: calculate_totals_passes_unfold calculate_totals_fields Assignment_def
          weighted_grade_def)
  have w: "stdout (world0 []) = []" by (simp add: world0_def)
  from print_summary_diagnostics [of ?xs "calculate_totals ?xs" "world0 []"]
  obtain w' where "print_summary ?xs (calculate_totals ?xs) (world0 []) = Inr w'"
    and "filter (prefix ''Failed '') (stdout w') = [failed_line ''FA'' 40 50 @ [CHR 0x0A]]"
    by (auto simp: t w)
  then show ?thesis by (simp add: failed_line_def format_2f_examples2)
qed

section \<open>Properties of the session\<close>

lemma dropWhile_hd_id: "xs = [] \<or> \<not> P (hd xs) \<Longrightarrow> dropWhile P xs = xs"
  by (cases xs) auto

lemma strip_ends:
  "strip s = [] \<or> (\<not> isspace (hd (strip s)) \<and> \<not> isspace (last (strip s)))"
proof (cases "strip s = []")
  case True
  then show ?thesis by simp
next
  case False
  define t where "t = dropWhile isspace s"
  define u where "u = dropWhile isspace (rev t)"
  have s: "strip s = rev u" by (simp add: strip_def t_def u_def)
  with False have u: "u \<noteq> []" by simp
  then have "\<not> isspace (hd u)" unfolding u_def by (rule hd_dropWhile)
  then have l: "\<not> isspace (last (strip s))" using u by (simp add: s last_rev)
  have t: "t \<noteq> []"
  proof
    assume "t = []"
    then have "u = []" by (simp add: u_def)
    with u show False by simp
  qed
  then have ht: "\<not> isspace (hd t)" unfolding t_def by (rule hd_dropWhile)
  have "rev t = takeWhile isspace (rev t) @ u"
    by (simp add: u_def)
  then have "rev (rev t) = rev (takeWhile isspace (rev t) @ u)" by simp
  then have "t = rev u @ rev (takeWhile isspace (rev t))" by simp
  with u have "hd t = hd (rev u)" by (metis hd_append2 rev_is_Nil_conv)
  with ht have "\<not> isspace (hd (strip s))" by (simp add: s)
  with l show ?thesis by simp
qed

lemma strip_idem: "strip (strip s) = strip s"
proof -
  define r where "r = strip s"
  from strip_ends [of s] have e: "r = [] \<or> (\<not> isspace (hd r) \<and> \<not> isspace (last r))"
    by (simp add: r_def)
  then have a: "dropWhile isspace r = r"
    by (intro dropWhile_hd_id) auto
  from e have "rev r = [] \<or> \<not> isspace (hd (rev r))"
    by (auto simp: hd_rev)
  then have "dropWhile isspace (rev r) = rev r" by (rule dropWhile_hd_id)
  with a have "strip r = r" by (simp add: strip_def)
  then show ?thesis by (simp add: r_def)
qed

text \<open>The only error a prompt can raise is the end of the input.\<close>

lemma prompt_non_empty_error: "prompt_non_empty p w = Inl e \<Longrightarrow> e = EOFError"
proof (induction p w rule: prompt_non_empty.induct)
  case (1 p w)
  note unf = prompt_non_empty.simps [of p w]
  from input_py_cases [of p w] show ?case
  proof (elim disjE exE conjE)
    assume "input_py p w = Inl EOFError"
    with "1.prems" unf show ?thesis by simp
  next
    fix l w1
    assume inp: "input_py p w = Inr (l, w1)"
    show ?thesis
    proof (cases "strip l \<noteq> []")
      case True
      with "1.prems" inp unf show ?thesis by (simp add: Let_def)
    next
      case False
      with inp unf have "prompt_non_empty p w =
          prompt_non_empty p (print_py ''Value cannot be empty.'' w1)"
        by (simp add: Let_def)
      with "1.IH" [OF inp refl refl] False "1.prems" show ?thesis by simp
    qed
  qed
qed

lemma prompt_category_error: "prompt_category w = Inl e \<Longrightarrow> e = EOFError"
proof (induction w rule: prompt_category.induct)
  case (1 w)
  note unf = prompt_category.simps [of w]
  from input_py_cases [of "''Category (FA/SA): ''" w] show ?case
  proof (elim disjE exE conjE)
    assume "input_py ''Category (FA/SA): '' w = Inl EOFError"
    with "1.prems" unf show ?thesis by simp
  next
    fix l w1
    assume inp: "input_py ''Category (FA/SA): '' w = Inr (l, w1)"
    show ?thesis
    proof (cases "upper (strip l) \<in> set [''FA'', ''SA'']")
      case True
      with inp unf have "prompt_category w = Inr (upper (strip l), w1)"
        by (simp add: Let_def)
      with "1.prems" show ?thesis by simp
    next
      case False
      with inp unf have "prompt_category w =
          prompt_category (print_py (''Category must be 'FA' or 'SA'' @ [CHR 0x27]) w1)"
        by (simp add: Let_def)
      with "1.IH" [OF inp refl refl False] "1.prems" show ?thesis by simp
    qed
  qed
qed

lemma prompt_grade_error: "prompt_grade f w = Inl e \<Longrightarrow> e = EOFError"
proof (induction f w rule: prompt_grade.induct)
  case (1 f w)
  note unf = prompt_grade.simps [of f w]
  from input_py_cases [of "''Grade (0-100): ''" w] show ?case
  proof (elim disjE exE conjE)
    assume "input_py ''Grade (0-100): '' w = Inl EOFError"
    with "1.prems" unf show ?thesis by simp
  next
    fix l w1
    assume inp: "input_py ''Grade (0-100): '' w = Inr (l, w1)"
    let ?w2 = "print_py ''Grade must be between 0 and 100'' w1"
    consider (ok) "prompt_grade f w = Inr (the (f (strip l)), w1)"
      | (none) "f (strip l) = None" "prompt_grade f w = prompt_grade f ?w2"
      | (bad) g where "f (strip l) = Some g" "\<not> (0 \<le> g \<and> g \<le> 100)"
          "prompt_grade f w = prompt_grade f ?w2"
      using inp unf
      by (cases "f (strip l)"; cases "0 \<le> the (f (strip l)) \<and> the (f (strip l)) \<le> 100")
         (auto simp: Let_def)
    then show ?thesis
    proof cases
      case ok
      with "1.prems" show ?thesis by simp
    next
      case none
      with "1.IH"(1) [OF inp refl refl none(1)] "1.prems" show ?thesis by simp
    next
      case bad
      with "1.IH"(2) [OF inp refl refl bad(1) bad(2)] "1.prems" show ?thesis by simp
    qed
  qed
qed

lemma prompt_weight_error: "prompt_weight f w = Inl e \<Longrightarrow> e = EOFError"
proof (induction f w rule: prompt_weight.induct)
  case (1 f w)
  note unf = prompt_weight.simps [of f w]
  from input_py_cases [of "''Weight (> 0): ''" w] show ?case
  proof (elim disjE exE conjE)
    assume "input_py ''Weight (> 0): '' w = Inl EOFError"
    with "1.prems" unf show ?thesis by simp
  next
    fix l w1
    assume inp: "input_py ''Weight (> 0): '' w = Inr (l, w1)"
    let ?w2 = "print_py ''Weight must be a positive number'' w1"
    consider (ok) "prompt_weight f w = Inr (the (f (strip l)), w1)"
      | (none) "f (strip l) = None" "prompt_weight f w = prompt_weight f ?w2"
      | (bad) g where "f (strip l) = Some g" "\<not> 0 < g"
          "prompt_weight f w = prompt_weight f ?w2"
      using inp unf
      by (cases "f (strip l)"; cases "0 < the (f (strip l))") (auto simp: Let_def)
    then show ?thesis
    proof cases
      case ok
      with "1.prems" show ?thesis by simp
    next
      case none
      with "1.IH"(1) [OF inp refl refl none(1)] "1.prems" show ?thesis by simp
    next
      case bad
      with "1.IH"(2) [OF inp refl refl bad(1) bad(2)] "1.prems" show ?thesis by simp
    qed
  qed
qed

lemma prompt_continue_error: "prompt_continue w = Inl e \<Longrightarrow> e = EOFError"
proof (induction w rule: prompt_continue.induct)
  case (1 w)
  note unf = prompt_continue.simps [of w]
  from input_py_cases [of "''Add another assignment? (y/n): ''" w] show ?case
  proof (elim disjE exE conjE)
    assume "input_py ''Add another assignment? (y/n): '' w = Inl EOFError"
    with "1.prems" unf show ?thesis by simp
  next
    fix l w1
    assume inp: "input_py ''Add another assignment? (y/n): '' w = Inr (l, w1)"
    let ?w2 = "print_py ''Please enter 'y' or 'n'.'' w1"
    let ?r = "lower (strip l)"
    consider (yes) "prompt_continue w = Inr (True, w1)"
      | (no) "prompt_continue w = Inr (False, w1)"
      | (again) "?r \<notin> set [''y'', ''yes'']" "?r \<notin> set [''n'', ''no'']"
          "prompt_continue w = prompt_continue ?w2"
      using inp unf
      by (cases "?r \<in> set [''y'', ''yes'']"; cases "?r \<in> set [''n'', ''no'']")
         (simp_all add: Let_def)
    then show ?thesis
    proof cases
      case yes
      with "1.prems" show ?thesis by simp
    next
      case no
      with "1.prems" show ?thesis by simp
    next
      case again
      with "1.IH" [OF inp refl refl again(1) again(2)] "1.prems" show ?thesis by simp
    qed
  qed
qed

text \<open>One round of the loop: it stops at the end of the input, or builds a valid record.\<close>

lemma collect_assignments_round:
  "collect_assignments_loop f acc w = Inl EOFError \<or>
   (\<exists>n w1 c w2 g w3 wt w4 again w5.
      prompt_non_empty ''Assignment Name: ''
        (print_py ([CHR 0x0A] @ ''Enter assignment details:'') w) = Inr (n, w1) \<and>
      prompt_category w1 = Inr (c, w2) \<and>
      prompt_grade f w2 = Inr (g, w3) \<and>
      prompt_weight f w3 = Inr (wt, w4) \<and>
      prompt_continue w4 = Inr (again, w5) \<and>
      record_invariant (Assignment n c g wt) \<and>
      collect_assignments_loop f acc w =
        (if \<not> again then Inr (acc @ [Assignment n c g wt], w5)
         else collect_assignments_loop f (acc @ [Assignment n c g wt]) w5))"
proof -
  note unf = collect_assignments_loop.simps [of f acc w]
  let ?w0 = "print_py ([CHR 0x0A] @ ''Enter assignment details:'') w"
  show ?thesis
  proof (cases "prompt_non_empty ''Assignment Name: '' ?w0")
    case (Inl e)
    with prompt_non_empty_error [OF Inl] unf show ?thesis by simp
  next
    case r1: (Inr r)
    obtain n w1 where p1: "prompt_non_empty ''Assignment Name: '' ?w0 = Inr (n, w1)"
      using r1 by (cases r) simp
    show ?thesis
    proof (cases "prompt_category w1")
      case (Inl e)
      with prompt_category_error [OF Inl] unf p1 show ?thesis by simp
    next
      case r2: (Inr r)
      obtain c w2 where p2: "prompt_category w1 = Inr (c, w2)"
        using r2 by (cases r) simp
      show ?thesis
      proof (cases "prompt_grade f w2")
        case (Inl e)
        with prompt_grade_error [OF Inl] unf p1 p2 show ?thesis by simp
      next
        case r3: (Inr r)
        obtain g w3 where p3: "prompt_grade f w2 = Inr (g, w3)"
          using r3 by (cases r) simp
        show ?thesis
        proof (cases "prompt_weight f w3")
          case (Inl e)
          with prompt_weight_error [OF Inl] unf p1 p2 p3 show ?thesis by simp
        next
          case r4: (Inr r)
          obtain wt w4 where p4: "prompt_weight f w3 = Inr (wt, w4)"
            using r4 by (cases r) simp
          show ?thesis
          proof (cases "prompt_continue w4")
            case (Inl e)
            with prompt_continue_error [OF Inl] unf p1 p2 p3 p4 show ?thesis by simp
          next
            case r5: (Inr r)
            obtain again w5 where p5: "prompt_continue w4 = Inr (again, w5)"
              using r5 by (cases r) simp
            from prompt_non_empty_result [OF p1] obtain l where "n = strip l" "n \<noteq> []"
              by blast
            then have "strip n \<noteq> []" by (simp add: strip_idem)
            with prompt_category_result [OF p2] prompt_grade_result [OF p3]
              prompt_weight_result [OF p4]
            have inv: "record_invariant (Assignment n c g wt)"
              by (simp add: record_invariant_def Assignment_def)
            have "collect_assignments_loop f acc w =
                (if \<not> again then Inr (acc @ [Assignment n c g wt], w5)
                 else collect_assignments_loop f (acc @ [Assignment n c g wt]) w5)"
              using unf p1 p2 p3 p4 p5 by simp
            with p1 p2 p3 p4 p5 inv show ?thesis by blast
          qed
        qed
      qed
    qed
  qed
qed

lemma collect_assignments_loop_cases:
  "collect_assignments_loop f acc w = Inl EOFError \<or>
   (\<exists>new w'. collect_assignments_loop f acc w = Inr (acc @ new, w') \<and>
      new \<noteq> [] \<and> list_all record_invariant new)"
proof (induction f acc w rule: collect_assignments_loop.induct)
  case (1 f acc w)
  from collect_assignments_round [of f acc w] show ?case
  proof (elim disjE exE conjE)
    assume "collect_assignments_loop f acc w = Inl EOFError"
    then show ?thesis by simp
  next
    fix n w1 c w2 g w3 wt w4 again w5
    assume p: "prompt_non_empty ''Assignment Name: ''
        (print_py ([CHR 0x0A] @ ''Enter assignment details:'') w) = Inr (n, w1)"
      "prompt_category w1 = Inr (c, w2)" "prompt_grade f w2 = Inr (g, w3)"
      "prompt_weight f w3 = Inr (wt, w4)" "prompt_continue w4 = Inr (again, w5)"
      and inv: "record_invariant (Assignment n c g wt)"
      and step: "collect_assignments_loop f acc w =
        (if \<not> again then Inr (acc @ [Assignment n c g wt], w5)
         else collect_assignments_loop f (acc @ [Assignment n c g wt]) w5)"
    show ?thesis
    proof (cases again)
      case False
      with step inv show ?thesis by simp
    next
      case True
      with "1.IH" [OF p(1) refl p(2) refl p(3) refl p(4) refl p(5) refl]
      consider "collect_assignments_loop f (acc @ [Assignment n c g wt]) w5 = Inl EOFError"
        | new w' where "collect_assignments_loop f (acc @ [Assignment n c g wt]) w5 =
            Inr ((acc @ [Assignment n c g wt]) @ new, w')" "list_all record_invariant new"
        by auto
      then show ?thesis
      proof cases
        case 1
        with step True show ?thesis by simp
      next
        case 2
        with step True inv have "collect_assignments_loop f acc w =
            Inr (acc @ (Assignment n c g wt # new), w') \<and> Assignment n c g wt # new \<noteq> [] \<and>
            list_all record_invariant (Assignment n c g wt # new)"
          by simp
        then show ?thesis by blast
      qed
    qed
  qed
qed

subsection \<open>A concrete session\<close>

lemma string_examples:
  "strip ''Quiz1'' = ''Quiz1''" "strip '' fa '' = ''fa''" "upper ''fa'' = ''FA''"
  "strip ''abc'' = ''abc''" "strip ''80'' = ''80''" "strip ''-5'' = ''-5''"
  "strip ''20'' = ''20''" "strip ''n'' = ''n''" "lower ''n'' = ''n''"
  by code_simp+

lemma py_float_decimal_examples:
  "py_float_decimal ''abc'' = None" "py_float_decimal ''80'' = Some 80"
  "py_float_decimal ''-5'' = Some (- 5)" "py_float_decimal ''20'' = Some 20"
  by (simp_all add: py_float_decimal_def is_digit_def digits_value_def)

lemma session_run:
  "\<exists>w'. collect_assignments py_float_decimal (world0 session_input) =
          Inr ([Assignment ''Quiz1'' ''FA'' 80 20], w') \<and> stdin w' = []"
  by (simp add: collect_assignments_def collect_assignments_loop.simps world0_def
        session_input_def prompt_non_empty.simps prompt_category.simps prompt_grade.simps
        prompt_weight.simps prompt_continue.simps input_py_def print_py_def Let_def
        string_examples py_float_decimal_examples)

text \<open>
  C2. Every record of the list returned by \<open>collect_assignments\<close> satisfies the
  invariant of the data model: a name that is not empty after trimming, category FA or
  SA, a grade in [0, 100] and a positive weight. The loop only appends: the records
  collected so far are a prefix of the result, unchanged. The values \<open>prompt_grade\<close> and
  \<open>prompt_weight\<close> return are in range.
\<close>

theorem collect_assignments_invariants:
  "(collect_assignments f w = Inr (xs, w') \<longrightarrow> (\<forall>a\<in>set xs. record_invariant a)) \<and>
   (collect_assignments_loop f acc w = Inr (ys, w'') \<longrightarrow>
      prefix acc ys \<and> (\<forall>a\<in>set (drop (length acc) ys). record_invariant a)) \<and>
   (prompt_grade f w = Inr (g, w1) \<longrightarrow> 0 \<le> g \<and> g \<le> 100) \<and>
   (prompt_weight f w = Inr (v, w2) \<longrightarrow> 0 < v)"
proof (intro conjI impI)
  assume "collect_assignments f w = Inr (xs, w')"
  with collect_assignments_loop_cases [of f "[]" w]
  show "\<forall>a\<in>set xs. record_invariant a"
    by (auto simp: collect_assignments_def list_all_iff)
next
  assume r: "collect_assignments_loop f acc w = Inr (ys, w'')"
  with collect_assignments_loop_cases [of f acc w]
  obtain new where "ys = acc @ new" "list_all record_invariant new" by auto
  then show "prefix acc ys" "\<forall>a\<in>set (drop (length acc) ys). record_invariant a"
    by (simp_all add: list_all_iff)
next
  assume "prompt_grade f w = Inr (g, w1)"
  from prompt_grade_result [OF this] show "0 \<le> g" "g \<le> 100" by simp_all
next
  assume "prompt_weight f w = Inr (v, w2)"
  from prompt_weight_result [OF this] show "0 < v" by simp
qed

theorem collect_assignments_invariants_witness:
  "(\<exists>w'. collect_assignments py_float_decimal (world0 session_input) =
           Inr ([Assignment ''Quiz1'' ''FA'' 80 20], w')) \<and>
   record_invariant (Assignment ''Quiz1'' ''FA'' 80 20)"
proof -
  obtain w' where r: "collect_assignments py_float_decimal (world0 session_input) =
      Inr ([Assignment ''Quiz1'' ''FA'' 80 20], w')"
    using session_run by blast
  with collect_assignments_invariants
    [of py_float_decimal "world0 session_input" "[Assignment ''Quiz1'' ''FA'' 80 20]" w']
  have "record_invariant (Assignment ''Quiz1'' ''FA'' 80 20)" by simp
  with r show ?thesis by blast
qed

text \<open>
  C9. \<open>collect_assignments\<close> returns a list with at least one record, unless the input
  ends first (\<^verbatim>\<open>EOFError\<close>). Hence \<open>main\<close> never takes the branch for an empty
  list: it is the program without that branch, and when it returns, the last line printed
  is the confirmation that the data was saved.
\<close>

theorem collect_assignments_nonempty:
  "(collect_assignments f w = Inl EOFError \<or>
      (\<exists>xs w'. collect_assignments f w = Inr (xs, w') \<and> xs \<noteq> [])) \<and>
   (collect_assignments f w = Inr (ys, w1) \<longrightarrow> ys \<noteq> []) \<and>
   main f w =
     (case collect_assignments f w of
        Inl e \<Rightarrow> Inl e
      | Inr (xs, w1) \<Rightarrow>
          (case print_summary xs (calculate_totals xs) w1 of
             Inl e \<Rightarrow> Inl e
           | Inr w2 \<Rightarrow>
          (case write_csv xs ''grades.csv'' w2 of
             Inl e \<Rightarrow> Inl e
           | Inr w3 \<Rightarrow> Inr (print_py ([CHR 0x0A] @ ''Data saved to grades.csv'') w3)))) \<and>
   (main f w = Inr w4 \<longrightarrow>
      last (stdout w4) = [CHR 0x0A] @ ''Data saved to grades.csv'' @ [CHR 0x0A])"
proof -
  have c: "collect_assignments f w = Inl EOFError \<or>
      (\<exists>xs w'. collect_assignments f w = Inr (xs, w') \<and> xs \<noteq> [])"
    using collect_assignments_loop_cases [of f "[]" w]
    by (auto simp: collect_assignments_def)
  then have n: "collect_assignments f w = Inr (ys, w1) \<longrightarrow> ys \<noteq> []" by auto
  have m: "main f w =
     (case collect_assignments f w of
        Inl e \<Rightarrow> Inl e
      | Inr (xs, w1) \<Rightarrow>
          (case print_summary xs (calculate_totals xs) w1 of
             Inl e \<Rightarrow> Inl e
           | Inr w2 \<Rightarrow>
          (case write_csv xs ''grades.csv'' w2 of
             Inl e \<Rightarrow> Inl e
           | Inr w3 \<Rightarrow> Inr (print_py ([CHR 0x0A] @ ''Data saved to grades.csv'') w3))))"
    using c by (auto simp: main_def main_with_def)
  have l: "main f w = Inr w4 \<longrightarrow>
      last (stdout w4) = [CHR 0x0A] @ ''Data saved to grades.csv'' @ [CHR 0x0A]"
    unfolding m by (auto simp: print_py_def split: sum.splits)
  from c n m l show ?thesis by blast
qed

lemma session_main: "\<exists>w'. main py_float_decimal (world0 session_input) = Inr w'"
  by (simp add: main_def main_with_def collect_assignments_def collect_assignments_loop.simps
        world0_def session_input_def prompt_non_empty.simps prompt_category.simps
        prompt_grade.simps prompt_weight.simps prompt_continue.simps input_py_def print_py_def
        Let_def string_examples py_float_decimal_examples print_summary_def
        format_percentage_def py_div_def write_csv_def calculate_totals_def Assignment_def
        weighted_grade_def)

theorem collect_assignments_nonempty_witness:
  "(\<exists>w'. collect_assignments py_float_decimal (world0 session_input) =
          Inr ([Assignment ''Quiz1'' ''FA'' 80 20], w')) \<and>
   (\<exists>w4. main py_float_decimal (world0 session_input) = Inr w4 \<and>
      last (stdout w4) = [CHR 0x0A] @ ''Data saved to grades.csv'' @ [CHR 0x0A])"
proof -
  obtain w4 where r: "main py_float_decimal (world0 session_input) = Inr w4"
    using session_main by blast
  with collect_assignments_nonempty [of py_float_decimal "world0 session_input" _ _ w4]
  have "last (stdout w4) = [CHR 0x0A] @ ''Data saved to grades.csv'' @ [CHR 0x0A]" by blast
  with r session_run show ?thesis by blast
qed

section \<open>Properties of double arithmetic\<close>

lemma round_half_even_bounds:
  "\<lfloor>r\<rfloor> \<le> round_half_even r \<and> round_half_even r \<le> \<lfloor>r\<rfloor> + 1"
  by (simp add: round_half_even_def Let_def)

lemma round_half_even_of_int [simp]: "round_half_even (of_int n) = n"
  by (simp add: round_half_even_def)

lemma round_half_even_mono: "x \<le> y \<Longrightarrow> round_half_even x \<le> round_half_even y"
proof -
  assume xy: "x \<le> y"
  then have f: "\<lfloor>x\<rfloor> \<le> \<lfloor>y\<rfloor>" by (rule floor_mono)
  show ?thesis
  proof (cases "\<lfloor>x\<rfloor> = \<lfloor>y\<rfloor>")
    case True
    with xy have "x - of_int \<lfloor>x\<rfloor> \<le> y - of_int \<lfloor>y\<rfloor>" by simp
    with True show ?thesis
      by (auto simp: round_half_even_def Let_def)
  next
    case False
    with f have "\<lfloor>x\<rfloor> + 1 \<le> \<lfloor>y\<rfloor>" by simp
    with round_half_even_bounds [of x] round_half_even_bounds [of y] show ?thesis by linarith
  qed
qed


lemma floor_log2_bounds:
  assumes "0 < x"
  shows "2 powi \<lfloor>log 2 x\<rfloor> \<le> x" "x < 2 powi (\<lfloor>log 2 x\<rfloor> + 1)"
proof -
  define k where "k = \<lfloor>log 2 x\<rfloor>"
  have "2 powr (of_int k) \<le> x \<and> x < 2 powr (of_int k + 1)"
    using floor_log_eq_powr_iff [of x 2 k] assms by (simp add: k_def)
  moreover have "2 powr (of_int k) = (2::real) powi k"
    by (simp add: powr_real_of_int')
  moreover have "2 powr (of_int k + 1) = (2::real) powi (k + 1)"
    using powr_real_of_int' [of 2 "k + 1"] by simp
  ultimately show "2 powi \<lfloor>log 2 x\<rfloor> \<le> x" "x < 2 powi (\<lfloor>log 2 x\<rfloor> + 1)"
    unfolding k_def by simp_all
qed

lemma floor_log2_eqI:
  assumes "2 powi k \<le> x" "x < 2 powi (k + 1)"
  shows "\<lfloor>log 2 x\<rfloor> = k"
proof -
  have "(0::real) < 2 powi k" by simp
  with assms(1) have "0 < x" by linarith
  moreover have "2 powr (of_int k) = (2::real) powi k"
    by (simp add: powr_real_of_int')
  moreover have "2 powr (of_int k + 1) = (2::real) powi (k + 1)"
    using powr_real_of_int' [of 2 "k + 1"] by simp
  ultimately have "0 < x" "2 powr (of_int k) \<le> x \<and> x < 2 powr (of_int k + 1)"
    using assms by simp_all
  then
  show ?thesis
    using floor_log_eq_powr_iff [of x 2 k] by simp
qed


text \<open>Bounds of the rounded value by the powers of two around the argument.\<close>

lemma round_double_upper:
  assumes "0 < x"
  shows "round_double x \<le> 2 powi (ulp_exponent x + 53)"
proof -
  define u where "u = ulp_exponent x"
  have "x < 2 powi (\<lfloor>log 2 x\<rfloor> + 1)" using floor_log2_bounds(2) [OF assms] .
  also have "\<dots> \<le> 2 powi (u + 53)"
    unfolding u_def ulp_exponent_def using assms by (intro power_int_increasing) auto
  finally have "x < 2 powi (u + 53)" .
  then have "x / 2 powi u < 2 powi (u + 53) / 2 powi u"
    by (simp add: divide_strict_right_mono)
  also have "2 powi (u + 53) / 2 powi u = (2::real) powi 53"
    by (simp add: power_int_add)
  finally have "x / 2 powi u \<le> of_int (2 ^ 53)" by simp
  then have "round_half_even (x / 2 powi u) \<le> 2 ^ 53"
    using round_half_even_mono round_half_even_of_int by metis
  then have "of_int (round_half_even (x / 2 powi u)) \<le> (2 ^ 53 :: real)"
    by (metis of_int_le_iff of_int_numeral of_int_power)
  then have "of_int (round_half_even (x / 2 powi u)) * 2 powi u \<le> (2 ^ 53 :: real) * 2 powi u"
    by (intro mult_right_mono) auto
  also have "(2 ^ 53 :: real) * 2 powi u = 2 powi (u + 53)"
    by (simp add: power_int_add)
  finally have "of_int (round_half_even (x / 2 powi u)) * 2 powi u \<le> (2::real) powi (u + 53)" .
  moreover have "round_double x = of_int (round_half_even (x / 2 powi u)) * 2 powi u"
    using assms by (simp add: round_double_def u_def)
  ultimately show ?thesis unfolding u_def by linarith
qed

lemma round_double_lower:
  assumes "0 < x" "- 1022 < \<lfloor>log 2 x\<rfloor>"
  shows "2 powi (ulp_exponent x + 52) \<le> round_double x"
proof -
  define u where "u = ulp_exponent x"
  have u: "u + 52 = \<lfloor>log 2 x\<rfloor>"
    using assms by (simp add: u_def ulp_exponent_def)
  have "2 powi (u + 52) \<le> x" unfolding u using floor_log2_bounds(1) [OF assms(1)] .
  then have "2 powi (u + 52) / 2 powi u \<le> x / 2 powi u"
    by (simp add: divide_right_mono)
  moreover have "2 powi (u + 52) / 2 powi u = (2::real) powi 52"
    by (simp add: power_int_add)
  ultimately have "of_int (2 ^ 52) \<le> x / 2 powi u" by simp
  then have "2 ^ 52 \<le> round_half_even (x / 2 powi u)"
    using round_half_even_mono round_half_even_of_int by metis
  then have "(2 ^ 52 :: real) \<le> of_int (round_half_even (x / 2 powi u))"
    by (metis of_int_le_iff of_int_numeral of_int_power)
  then have "(2 ^ 52 :: real) * 2 powi u \<le> of_int (round_half_even (x / 2 powi u)) * 2 powi u"
    by (intro mult_right_mono) auto
  moreover have "(2 ^ 52 :: real) * 2 powi u = 2 powi (u + 52)"
    by (simp add: power_int_add)
  moreover have "round_double x = of_int (round_half_even (x / 2 powi u)) * 2 powi u"
    using assms by (simp add: round_double_def u_def)
  ultimately show ?thesis unfolding u_def by linarith
qed






lemma grade_in_range_cases:
  "grade_in_range g \<Longrightarrow> g = NegZero \<or> (\<exists>r. g = Finite r \<and> 0 \<le> r \<and> r \<le> 100)"
  by (cases g) (auto simp: grade_in_range_def fle_def)



lemma fl_round_binade:
  assumes "2 powi k \<le> x" "x < 2 powi (k + 1)" "- 1022 < k" "k < 1023"
  shows "fl_round x = Finite (of_int (round_half_even (x / 2 powi (k - 52))) * 2 powi (k - 52))"
proof -
  have p: "(0::real) < 2 powi k" by simp
  with assms(1) have x: "0 < x" by linarith
  have fl: "\<lfloor>log 2 x\<rfloor> = k" using assms(1,2) by (rule floor_log2_eqI)
  with x assms(3) have u: "ulp_exponent x = k - 52" by (simp add: ulp_exponent_def)
  have "2 powi (ulp_exponent x + 52) \<le> round_double x"
    using x assms(3) fl by (intro round_double_lower) simp_all
  with u have lo: "2 powi k \<le> round_double x" by simp
  have "round_double x \<le> 2 powi (ulp_exponent x + 53)" using x by (rule round_double_upper)
  with u have "round_double x \<le> 2 powi (k + 1)" by (simp add: add.commute)
  also have "(2::real) powi (k + 1) \<le> 2 powi 1023"
    using assms(4) by (intro power_int_increasing) simp_all
  also have "(2::real) powi 1023 < 2 ^ 1024" by simp
  finally have hi: "round_double x < 2 ^ 1024" .
  from lo p have pos: "0 < round_double x" by linarith
  have "round_double x = of_int (round_half_even (x / 2 powi (k - 52))) * 2 powi (k - 52)"
    using x u by (simp add: round_double_def)
  with pos hi x show ?thesis by (simp add: fl_round_def Let_def)
qed








lemma fl_round_3_10: "fl_round (3/10) = Finite (5404319552844595 / 18014398509481984)"
  using fl_round_binade [of "-2" "3/10"] by (simp add: round_half_even_def)

lemma fl_round_09: "fl_round (16212958658533785 / 18014398509481984) =
    Finite (2026619832316723 / 2251799813685248)"
  using fl_round_binade [of "-1" "16212958658533785 / 18014398509481984"]
  by (simp add: round_half_even_def)

lemma fl_round_7_10: "fl_round (7/10) = Finite (3152519739159347 / 4503599627370496)"
  using fl_round_binade [of "-1" "7/10"] by (simp add: round_half_even_def)

lemma fl_round_21: "fl_round (9457559217478041 / 4503599627370496) =
    Finite (1182194902184755 / 562949953421312)"
  using fl_round_binade [of 1 "9457559217478041 / 4503599627370496"]
  by (simp add: round_half_even_def)

lemma fl_round_09': "fl_round (2026619832316723 / 2251799813685248) =
    Finite (2026619832316723 / 2251799813685248)"
  using fl_round_binade [of "-1" "2026619832316723 / 2251799813685248"]
  by (simp add: round_half_even_def)

lemma fl_round_sum: "fl_round (6755399441055743 / 2251799813685248) =
    Finite (6755399441055743 / 2251799813685248)"
  using fl_round_binade [of 1 "6755399441055743 / 2251799813685248"]
  by (simp add: round_half_even_def)

lemma fl_round_3: "fl_round 3 = Finite 3"
  using fl_round_binade [of 1 3] by (simp add: round_half_even_def)

lemma fl_round_6: "fl_round 6 = Finite 6"
  using fl_round_binade [of 2 6] by (simp add: round_half_even_def)




section \<open>Properties of the aggregation in double arithmetic\<close>









lemmas float_ops = fadd_def fmul_def fquot_def is_inf_def is_zero_def signed_zero_def
  signed_inf_def fle_def flt_def feq_def

text \<open>
  Two valid formative records, (grade 30, weight 3) and (grade 70, weight 3). In exact
  arithmetic the achieved total is 3, the threshold; in double arithmetic it is
  2.9999999999999996, below the threshold, and the verdict is FAIL.
\<close>

lemma calculate_totals_ieee_rounding:
  "total_formative (calculate_totals_ieee
     [Assignment ''A'' ''FA'' (Finite 30) (Finite 3), Assignment ''B'' ''FA'' (Finite 70) (Finite 3)])
     = Finite (6755399441055743 / 2251799813685248)"
  "fa_threshold (calculate_totals_ieee
     [Assignment ''A'' ''FA'' (Finite 30) (Finite 3), Assignment ''B'' ''FA'' (Finite 70) (Finite 3)])
     = Finite 3"
  "\<not> passes (calculate_totals_ieee
     [Assignment ''A'' ''FA'' (Finite 30) (Finite 3), Assignment ''B'' ''FA'' (Finite 70) (Finite 3)])"
  by (simp_all add: calculate_totals_ieee_def Let_def py_sum_def weighted_grade_ieee_def
        Assignment_def float_ops fl_round_3_10 fl_round_09 fl_round_7_10 fl_round_21
        fl_round_09' fl_round_sum fl_round_3 fl_round_6)



section \<open>Properties of the persistence on doubles\<close>

lemma has_two_decimals_shape:
  assumes "ip \<noteq> []" "list_all is_digit ip" "is_digit d1" "is_digit d2"
    and "sign = [] \<or> sign = ''-''"
  shows "has_two_decimals (sign @ ip @ ''.'' @ [d1, d2])"
proof -
  obtain c cs where ip: "ip = c # cs" using assms(1) by (cases ip) auto
  with assms(2) have "is_digit c" by simp
  then have "c \<noteq> CHR ''-''" by (auto simp: is_digit_def)
  with assms(5) ip have b: "drop_sign (sign @ ip @ ''.'' @ [d1, d2]) = ip @ ''.'' @ [d1, d2]"
    by auto
  have n: "length (ip @ ''.'' @ [d1, d2]) = length ip + 3" by simp
  have "take (length ip) (ip @ ''.'' @ [d1, d2]) = ip" by simp
  moreover have "(ip @ ''.'' @ [d1, d2]) ! length ip = CHR ''.''"
    by (simp add: nth_append)
  moreover have "(ip @ ''.'' @ [d1, d2]) ! (length ip + 1) = d1"
    "(ip @ ''.'' @ [d1, d2]) ! (length ip + 2) = d2"
    by (simp_all add: nth_append)
  moreover have "Suc 0 \<le> length ip" using assms(1) by (cases ip) simp_all
  ultimately show ?thesis
    unfolding has_two_decimals_def b Let_def n using assms(2,3,4) by simp
qed

lemma format_2f_two_decimals: "has_two_decimals (format_2f r)"
proof -
  obtain sign ip d1 d2 where "format_2f r = sign @ ip @ ''.'' @ [d1, d2]"
    "sign = [] \<or> sign = ''-''" "ip \<noteq> []" "list_all is_digit ip" "is_digit d1" "is_digit d2"
    using format_2f_shape [of r] by blast
  then show ?thesis using has_two_decimals_shape [of ip d1 d2 sign] by simp
qed

lemma format_2f_ieee_two_decimals:
  "has_two_decimals (format_2f_ieee (Finite r))" "has_two_decimals (format_2f_ieee NegZero)"
  "\<not> has_two_decimals (format_2f_ieee PosInf)" "\<not> has_two_decimals (format_2f_ieee NegInf)"
  "\<not> has_two_decimals (format_2f_ieee NaN)"
proof -
  show "has_two_decimals (format_2f_ieee (Finite r))"
    by (simp add: format_2f_two_decimals)
qed (simp_all add: has_two_decimals_def is_digit_def)

lemma format_2f_ieee_unquoted: "csv_field (format_2f_ieee x) = format_2f_ieee x"
  by (cases x) (simp_all add: format_2f_unquoted, simp_all add: csv_field_def csv_special_def)

text \<open>
  C6 (as amended). When the file can be opened, \<open>write_csv\<close> replaces it by the header
  row \<^verbatim>\<open>Assignment,Category,Grade,Weight\<close> followed by one row per record, in the
  order of the list; the row of a record holds its name, its category, and its grade and
  weight in the format \<^verbatim>\<open>.2f\<close>, written without quotes. That text has exactly two
  decimal digits for every finite double and for the negative zero, hence for every grade
  accepted by \<open>prompt_grade\<close> and every weight accepted by \<open>prompt_weight\<close> but
  the infinity; the infinities and NaN are written \<^verbatim>\<open>inf\<close>, \<^verbatim>\<open>-inf\<close> and
  \<^verbatim>\<open>nan\<close>.
\<close>

theorem write_csv_rows:
  "(writable w filename \<longrightarrow>
      write_csv_ieee xs filename w =
        Inr (w\<lparr>files := (files w)(filename \<mapsto>
               (''Assignment,Category,Grade,Weight'' @ [CHR 0x0D, CHR 0x0A]) @
               concat (map (\<lambda>a. csv_line [name a, category a,
                                   format_2f_ieee (grade a), format_2f_ieee (weight a)]) xs))\<rparr>)) \<and>
   (\<forall>a::assignment_ieee.
      csv_line [name a, category a, format_2f_ieee (grade a), format_2f_ieee (weight a)] =
      csv_field (name a) @ '','' @ csv_field (category a) @ '','' @
      format_2f_ieee (grade a) @ '','' @ format_2f_ieee (weight a) @ [CHR 0x0D, CHR 0x0A]) \<and>
   (\<forall>r. has_two_decimals (format_2f_ieee (Finite r))) \<and>
   has_two_decimals (format_2f_ieee NegZero) \<and>
   format_2f_ieee PosInf = ''inf'' \<and> format_2f_ieee NegInf = ''-inf'' \<and>
   format_2f_ieee NaN = ''nan'' \<and>
   (\<forall>g. grade_in_range g \<longrightarrow> has_two_decimals (format_2f_ieee g)) \<and>
   (\<forall>v. weight_positive v \<and> v \<noteq> PosInf \<longrightarrow> has_two_decimals (format_2f_ieee v))"
proof (intro conjI impI allI)
  assume "writable w filename"
  then show "write_csv_ieee xs filename w =
        Inr (w\<lparr>files := (files w)(filename \<mapsto>
               (''Assignment,Category,Grade,Weight'' @ [CHR 0x0D, CHR 0x0A]) @
               concat (map (\<lambda>a. csv_line [name a, category a,
                                   format_2f_ieee (grade a), format_2f_ieee (weight a)]) xs))\<rparr>)"
    unfolding write_csv_ieee_def foldl_append_rows csv_record_ieee_def csv_header_line by simp
next
  fix a :: assignment_ieee
  show "csv_line [name a, category a, format_2f_ieee (grade a), format_2f_ieee (weight a)] =
      csv_field (name a) @ '','' @ csv_field (category a) @ '','' @
      format_2f_ieee (grade a) @ '','' @ format_2f_ieee (weight a) @ [CHR 0x0D, CHR 0x0A]"
    by (simp add: csv_line_def format_2f_ieee_unquoted)
next
  fix g assume "grade_in_range g"
  then show "has_two_decimals (format_2f_ieee g)"
    using grade_in_range_cases [of g] format_2f_ieee_two_decimals(1,2) by auto
next
  fix v assume "weight_positive v \<and> v \<noteq> PosInf"
  then show "has_two_decimals (format_2f_ieee v)"
    using format_2f_ieee_two_decimals(1) by (cases v) (auto simp: weight_positive_def flt_def)
qed (use format_2f_ieee_two_decimals in simp_all)

lemma format_2f_0: "format_2f 0 = ''0.00''"
  by (simp add: format_2f_def round_half_even_def str_nat.simps digit_char_values Let_def)

theorem write_csv_rows_witness:
  "(case write_csv_ieee
           [Assignment ''Quiz1'' ''FA'' (Finite 80) (Finite 20),
            Assignment ''Final'' ''SA'' (Finite 60) (Finite 80)]
           ''grades.csv'' (world0 []) of
      Inl e \<Rightarrow> None
    | Inr w \<Rightarrow> files w ''grades.csv'') =
   Some (''Assignment,Category,Grade,Weight'' @ [CHR 0x0D, CHR 0x0A] @
         ''Quiz1,FA,80.00,20.00'' @ [CHR 0x0D, CHR 0x0A] @
         ''Final,SA,60.00,80.00'' @ [CHR 0x0D, CHR 0x0A])"
proof -
  let ?xs = "[Assignment ''Quiz1'' ''FA'' (Finite 80) (Finite 20),
              Assignment ''Final'' ''SA'' (Finite 60) (Finite 80)]"
  have "writable (world0 []) ''grades.csv''"
    by (simp add: world0_def)
  with write_csv_rows [of "world0 []" "''grades.csv''" ?xs]
  have eq: "write_csv_ieee ?xs ''grades.csv'' (world0 []) =
        Inr ((world0 [])\<lparr>files := (files (world0 []))(''grades.csv'' \<mapsto>
               (''Assignment,Category,Grade,Weight'' @ [CHR 0x0D, CHR 0x0A]) @
               concat (map (\<lambda>a. csv_line [name a, category a,
                                   format_2f_ieee (grade a), format_2f_ieee (weight a)]) ?xs))\<rparr>)"
    by blast
  show ?thesis
    by (subst eq)
       (simp add: Assignment_def format_2f_examples csv_line_def csv_field_def csv_special_def)
qed

text \<open>
  A record the session can produce, with the weight entered as \<^verbatim>\<open>inf\<close>: its row
  ends with \<^verbatim>\<open>inf\<close>, a weight field without decimal digits.
\<close>

theorem write_csv_rows_counterexample:
  "grade_in_range (Finite 0) \<and> weight_positive PosInf \<and>
   (case write_csv_ieee [Assignment ''X'' ''FA'' (Finite 0) PosInf] ''grades.csv'' (world0 []) of
      Inl e \<Rightarrow> None
    | Inr w \<Rightarrow> files w ''grades.csv'') =
   Some (''Assignment,Category,Grade,Weight'' @ [CHR 0x0D, CHR 0x0A] @
         ''X,FA,0.00,inf'' @ [CHR 0x0D, CHR 0x0A]) \<and>
   \<not> has_two_decimals (format_2f_ieee (weight (Assignment ''X'' ''FA'' (Finite 0) PosInf)))"
  using format_2f_ieee_two_decimals(3)
  by (simp add: grade_in_range_def weight_positive_def fle_def flt_def write_csv_ieee_def
        world0_def csv_record_ieee_def Assignment_def format_2f_0 csv_line_def csv_field_def
        csv_special_def)

end
